theory Spec2Isabelle
  imports Complex_Main "HOL-Library.Sublist"
begin

section \<open>pyzlides: the layout and pagination engine of \<^verbatim>\<open>pyzlides/core.py\<close>\<close>

text \<open>
  The theory embeds the element classes of \<^verbatim>\<open>core.py\<close>, their \<^verbatim>\<open>render\<close> methods,
  \<^verbatim>\<open>wrap_text\<close>, the height estimator and the pagination loop.

  Conventions of the embedding.
  \<^item> Python numbers are real numbers, and a theme number is taken as a double. The
    rounding of doubles is modelled on the way to the floor that the estimator takes for
    the line count of a text element: in the font sizes scaled by 0.75 and 0.6 and in
    the product of the text length with the font size (\<open>double\<close> below). Elsewhere
    arithmetic is exact. Where the theme holds a Python int the code computes that
    product with ints; the two agree while it stays below \<open>2 ^ 53\<close>.
    \<^verbatim>\<open>a // b\<close> is the floor of the quotient.
  \<^item> Python strings are lists of characters; a character is a code point below 256.
  \<^item> The theme dictionary holds numbers under \<^verbatim>\<open>font_size\<close> and \<^verbatim>\<open>header_font_size\<close>
    and strings under the other keys; an absent key is \<open>None\<close>. The field of key
    \<^verbatim>\<open>k\<close> is \<open>theme_k\<close>.
  \<^item> The reportlab canvas is outside the repository. Its \<^verbatim>\<open>stringWidth\<close> is a
    parameter, and so are the fonts it knows and the colour strings that \<^verbatim>\<open>HexColor\<close>
    accepts: \<^verbatim>\<open>setFont\<close> and \<^verbatim>\<open>stringWidth\<close> raise \<^verbatim>\<open>KeyError\<close> for a font that is
    not registered, \<^verbatim>\<open>HexColor\<close> raises \<^verbatim>\<open>ValueError\<close> for a string it cannot read
    (the colour constants of the source are taken to be read). The other drawing calls
    are recorded in a log and are taken to succeed. The file system and the image
    reader are a parameter too.
\<close>

subsection \<open>Page geometry\<close>

definition SLIDE_16_9 :: "real \<times> real" where
  "SLIDE_16_9 = (792, 891 / 2)"

definition DEFAULT_MARGIN_LEFT :: real where "DEFAULT_MARGIN_LEFT = 50"
definition DEFAULT_MARGIN_RIGHT :: real where "DEFAULT_MARGIN_RIGHT = 50"
definition DEFAULT_MARGIN_TOP :: real where "DEFAULT_MARGIN_TOP = 50"
definition DEFAULT_MARGIN_BOTTOM :: real where "DEFAULT_MARGIN_BOTTOM = 50"

definition get_available_width :: real where
  "get_available_width = fst SLIDE_16_9 - DEFAULT_MARGIN_LEFT - DEFAULT_MARGIN_RIGHT"

subsection \<open>Doubles\<close>

text \<open>
  The exponent of a positive number \<open>x\<close>: the \<open>k\<close> with \<open>2 ^ k \<le> x < 2 ^ (k + 1)\<close>,
  found by halving a number from 1 on and by doubling a number below 1.
\<close>

function exponent_up :: "real \<Rightarrow> int" where
  "exponent_up x = (if 2 \<le> x then exponent_up (x / 2) + 1 else 0)"
  by pat_completeness auto
termination
proof (relation "measure (\<lambda>x. nat \<lfloor>x\<rfloor>)")
  show "wf (measure (\<lambda>x. nat \<lfloor>x\<rfloor>))" by simp
next
  fix x :: real
  assume a: "2 \<le> x"
  have "of_int \<lfloor>x / 2\<rfloor> \<le> x / 2" by (rule of_int_floor_le)
  moreover have "x - 1 < of_int \<lfloor>x\<rfloor>" by linarith
  ultimately have "real_of_int \<lfloor>x / 2\<rfloor> < of_int \<lfloor>x\<rfloor>" using a by linarith
  then have "\<lfloor>x / 2\<rfloor> < \<lfloor>x\<rfloor>" by (simp only: of_int_less_iff)
  moreover have "0 < \<lfloor>x\<rfloor>" using a by linarith
  ultimately show "(x / 2, x) \<in> measure (\<lambda>x. nat \<lfloor>x\<rfloor>)" by simp
qed

function exponent_down :: "real \<Rightarrow> int" where
  "exponent_down x = (if 0 < x \<and> x < 1 then exponent_down (2 * x) - 1 else 0)"
  by pat_completeness auto
termination
proof (relation "measure (\<lambda>x. nat \<lceil>1 / x\<rceil>)")
  show "wf (measure (\<lambda>x. nat \<lceil>1 / x\<rceil>))" by simp
next
  fix x :: real
  assume a: "0 < x \<and> x < 1"
  define y where "y = 1 / x"
  have y: "1 < y" using a by (simp add: y_def)
  have up: "y \<le> of_int \<lceil>y\<rceil>" by (rule le_of_int_ceiling)
  then have two: "2 \<le> \<lceil>y\<rceil>" using y by linarith
  then have "2 \<le> real_of_int \<lceil>y\<rceil>" by linarith
  then have "y / 2 \<le> real_of_int \<lceil>y\<rceil> - 1" using up by linarith
  then have "y / 2 \<le> of_int (\<lceil>y\<rceil> - 1)" by simp
  then have c: "\<lceil>y / 2\<rceil> \<le> \<lceil>y\<rceil> - 1" by (simp only: ceiling_le_iff)
  have e: "1 / (2 * x) = y / 2" by (simp add: y_def)
  have "\<lceil>1 / (2 * x)\<rceil> \<le> \<lceil>y\<rceil> - 1" unfolding e by (fact c)
  then have "\<lceil>1 / (2 * x)\<rceil> < \<lceil>1 / x\<rceil>" unfolding y_def by linarith
  moreover have "0 < \<lceil>1 / x\<rceil>" using two unfolding y_def by linarith
  ultimately have "nat \<lceil>1 / (2 * x)\<rceil> < nat \<lceil>1 / x\<rceil>" by linarith
  then show "(2 * x, x) \<in> measure (\<lambda>x. nat \<lceil>1 / x\<rceil>)"
    unfolding measure_def inv_image_def by blast
qed

declare exponent_up.simps [simp del] exponent_down.simps [simp del]

definition exponent :: "real \<Rightarrow> int" where
  "exponent x = (if 1 \<le> x then exponent_up x else exponent_down x)"

text \<open>Rounding to the nearest integer, a tie going to the even one.\<close>

definition round_half_even :: "real \<Rightarrow> int" where
  "round_half_even r =
     (let f = \<lfloor>r\<rfloor>
      in if r - of_int f < 1 / 2 then f
         else if 1 / 2 < r - of_int f then f + 1
         else if even f then f else f + 1)"

text \<open>
  \<open>double x\<close> is the double nearest to \<open>x\<close>, a tie going to the even significand of 53
  bits; the exponent is not bounded (no overflow, no subnormal numbers). A float literal
  \<^verbatim>\<open>c\<close> is \<open>double c\<close>, and the product of two doubles is the \<open>double\<close> of the exact
  product.
\<close>

definition double :: "real \<Rightarrow> real" where
  "double x =
     (if x = 0 then 0
      else let e = exponent \<bar>x\<bar> - 52;
               u = (if 0 \<le> e then 2 ^ nat e else 1 / 2 ^ nat (- e))
           in of_int (round_half_even (x / u)) * u)"

subsection \<open>Python strings\<close>

text \<open>
  \<^verbatim>\<open>s.split(sep)\<close> for a separator of one character. The result is never the empty
  list: a character other than the separator joins the first piece of the rest.
\<close>

fun split_on :: "char \<Rightarrow> string \<Rightarrow> string list" where
  "split_on sep [] = [[]]"
| "split_on sep (c # cs) =
     (if c = sep then [] # split_on sep cs
      else (case split_on sep cs of [] \<Rightarrow> [[c]] | piece # pieces \<Rightarrow> (c # piece) # pieces))"

text \<open>\<^verbatim>\<open>str.isspace\<close> on one character, for code points below 256.\<close>

definition isspace :: "char \<Rightarrow> bool" where
  "isspace c \<longleftrightarrow>
     of_char c \<in> {9, 10, 11, 12, 13, 28, 29, 30, 31, 32, 133, 160 :: nat}"

definition lstrip :: "string \<Rightarrow> string" where
  "lstrip s = dropWhile isspace s"

definition rstrip :: "string \<Rightarrow> string" where
  "rstrip s = rev (dropWhile isspace (rev s))"

definition strip :: "string \<Rightarrow> string" where
  "strip s = rstrip (lstrip s)"

subsection \<open>The theme and the outside world\<close>

record theme =
  theme_font :: "string option"
  theme_font_size :: "real option"
  theme_header_font_size :: "real option"
  theme_font_color :: "string option"
  theme_header_color :: "string option"
  theme_background_color :: "string option"

text \<open>\<^verbatim>\<open>theme.get(key, default)\<close>.\<close>

definition theme_get :: "'a option \<Rightarrow> 'a \<Rightarrow> 'a" where
  "theme_get entry dflt = (case entry of None \<Rightarrow> dflt | Some v \<Rightarrow> v)"

text \<open>
  What \<^verbatim>\<open>os.path.exists\<close> and \<^verbatim>\<open>ImageReader\<close> find at a path: no file, a file
  that cannot be read as an image (with the message of the exception), or an image
  with its pixel size.
\<close>

datatype image_file = Missing | Unreadable string | Readable nat nat

text \<open>
  \<open>font_registered\<close> tells the fonts that the canvas knows; \<open>HexColor_error\<close> gives, for
  a colour string that \<^verbatim>\<open>HexColor\<close> cannot read, the message of the \<^verbatim>\<open>ValueError\<close>.
\<close>

record world =
  stringWidth :: "string \<Rightarrow> string \<Rightarrow> real \<Rightarrow> real"
  image_at :: "string \<Rightarrow> image_file"
  lexer_known :: "string \<Rightarrow> bool"
  font_registered :: "string \<Rightarrow> bool"
  HexColor_error :: "string \<Rightarrow> string option"

subsection \<open>\<^verbatim>\<open>wrap_text\<close>\<close>

definition wrap_word ::
  "world \<Rightarrow> string \<Rightarrow> real \<Rightarrow> real \<Rightarrow> string list \<times> string \<Rightarrow> string \<Rightarrow> string list \<times> string"
where
  "wrap_word canvas_obj font_name font_size max_width st word =
     (case st of (lines, current_line) \<Rightarrow>
        let test_line = current_line @ (if current_line \<noteq> [] then '' '' else []) @ word;
            text_width = stringWidth canvas_obj test_line font_name font_size
        in if text_width \<le> max_width then (lines, test_line)
           else if current_line \<noteq> [] then (lines @ [current_line], word)
           else (lines @ [word], []))"

definition wrap_text :: "world \<Rightarrow> string \<Rightarrow> string \<Rightarrow> real \<Rightarrow> real \<Rightarrow> string list" where
  "wrap_text canvas_obj text font_name font_size max_width =
     (case foldl (wrap_word canvas_obj font_name font_size max_width) ([], [])
             (split_on CHR '' '' text) of
        (lines, current_line) \<Rightarrow>
          if current_line \<noteq> [] then lines @ [current_line] else lines)"

subsection \<open>Elements\<close>

text \<open>
  One constructor for each element class: the text and the optional colour of the
  text classes; code, language and background colour of \<^verbatim>\<open>Code\<close>; path and caption
  of \<^verbatim>\<open>Img\<close>; the children and the column count of \<^verbatim>\<open>GridLayout\<close>.
\<close>

datatype element =
    Head1 string "string option"
  | Head2 string "string option"
  | Head3 string "string option"
  | BodyText string "string option"
  | Bold string "string option"
  | Code string "string option" string
  | Img string string
  | Center element
  | Bottom element
  | TitleSlide element
  | GridLayout "element list" int
  | BackgroundImage string
  | CombinedElement "element list"

text \<open>A slide holds a list of elements; \<^verbatim>\<open>Slide(e)\<close> for one element \<open>e\<close> is \<open>Slide [e]\<close>.\<close>

datatype slide = Slide (elements: "element list")

subsection \<open>The height estimator\<close>

text \<open>\<^verbatim>\<open>xs[:n]\<close>: a negative \<open>n\<close> counts from the end.\<close>

definition slice_to :: "'a list \<Rightarrow> int \<Rightarrow> 'a list" where
  "slice_to xs n = (if 0 \<le> n then take (nat n) xs else take (length xs - nat (- n)) xs)"

text \<open>
  \<^verbatim>\<open>max(1, len(element.text) * font_size // max_width + 1)\<close>: the product is a double,
  of which the floor division takes the exact floor of the quotient.
\<close>

definition estimated_lines :: "string \<Rightarrow> real \<Rightarrow> real \<Rightarrow> real" where
  "estimated_lines text font_size max_width =
     max 1 (of_int \<lfloor>double (real (length text) * font_size) / max_width\<rfloor> + 1)"

text \<open>The \<^verbatim>\<open>code_lines\<close> that the estimator counts for a \<^verbatim>\<open>Code\<close> element.\<close>

definition estimate_code_lines :: "string \<Rightarrow> string list" where
  "estimate_code_lines code = split_on (CHR 0x0A) (strip code)"

function estimate_element_height :: "element \<Rightarrow> theme \<Rightarrow> real" where
  "estimate_element_height (Head1 text color) th =
     (let fs = theme_get (theme_header_font_size th) 48;
          max_width = get_available_width
      in estimated_lines text fs max_width * (fs + 5) + 5)"
| "estimate_element_height (Head2 text color) th =
     (let fs = double (theme_get (theme_header_font_size th) 48 * double 0.75);
          max_width = get_available_width
      in estimated_lines text fs max_width * (fs + 4) + 4)"
| "estimate_element_height (Head3 text color) th =
     (let fs = double (theme_get (theme_header_font_size th) 48 * double 0.6);
          max_width = get_available_width
      in estimated_lines text fs max_width * (fs + 3) + 3)"
| "estimate_element_height (BodyText text color) th =
     (let fs = theme_get (theme_font_size th) 24;
          max_width = get_available_width
      in estimated_lines text fs max_width * (fs + 2) + 3)"
| "estimate_element_height (Bold text color) th =
     (let fs = theme_get (theme_font_size th) 24;
          max_width = get_available_width
      in estimated_lines text fs max_width * (fs + 2) + 3)"
| "estimate_element_height (Code code language background_color) th =
     (let fs = theme_get (theme_font_size th) 24 * 0.8;
          code_lines = estimate_code_lines code;
          line_height = fs + 2;
          padding = 10
      in real (length code_lines) * line_height + (2 * padding) + 10)"
| "estimate_element_height (Img path caption) th = 350"
| "estimate_element_height (Center e) th = estimate_element_height e th"
| "estimate_element_height (Bottom e) th = estimate_element_height e th"
| "estimate_element_height (TitleSlide e) th = estimate_element_height e th"
| "estimate_element_height (GridLayout es columns) th =
     foldl (\<lambda>max_height height. max max_height height) 0
       (map (\<lambda>grid_element. estimate_element_height grid_element th) (slice_to es columns))"
| "estimate_element_height (BackgroundImage path) th = 0"
| "estimate_element_height (CombinedElement es) th =
     foldl (\<lambda>total_height height. total_height + height) 0
       (map (\<lambda>sub_element. estimate_element_height sub_element th) es)"
  by pat_completeness auto
termination
proof (relation "measure (\<lambda>(e, th). size e)", goal_cases)
  case 1
  show ?case by simp
next
  case (5 es columns th x)
  then have "x \<in> set es" by (auto simp: slice_to_def dest: in_set_takeD split: if_splits)
  then show ?case by (simp add: less_Suc_eq_le size_list_estimation')
next
  case (6 es th x)
  then show ?case by (simp add: less_Suc_eq_le size_list_estimation')
qed simp_all

subsection \<open>Pagination\<close>

definition overflow_step ::
  "theme \<Rightarrow> slide list \<times> element list \<times> real \<Rightarrow> element \<Rightarrow> slide list \<times> element list \<times> real"
where
  "overflow_step th st element =
     (case st of (slides, current_slide_elements, current_y) \<Rightarrow>
        let page_height = snd SLIDE_16_9;
            bottom_margin = DEFAULT_MARGIN_BOTTOM;
            estimated_height = estimate_element_height element th
        in if current_y - estimated_height - 10 < bottom_margin \<and> current_slide_elements \<noteq> []
           then (slides @ [Slide current_slide_elements], [element],
                 page_height - DEFAULT_MARGIN_TOP - estimated_height - 10)
           else (slides, current_slide_elements @ [element],
                 current_y - (estimated_height + 10)))"

definition render_with_overflow_detection :: "slide \<Rightarrow> theme \<Rightarrow> slide list" where
  "render_with_overflow_detection self th =
     (case foldl (overflow_step th) ([], [], snd SLIDE_16_9 - DEFAULT_MARGIN_TOP) (elements self) of
        (slides, current_slide_elements, current_y) \<Rightarrow>
          let slides = (if current_slide_elements \<noteq> []
                        then slides @ [Slide current_slide_elements] else slides)
          in if slides = [] then [self] else slides)"

subsection \<open>The canvas log and the outcome of a call\<close>

datatype canvas_op =
    SetFont string real
  | SetFillColor string
  | DrawString real real string
  | Rect real real real real
  | DrawImage string real real real real

datatype py_error = ZeroDivisionError | KeyError | ValueError

text \<open>A call returns a value, raises an exception that leaves the method, or never returns.\<close>

datatype 'a outcome = Returns 'a | Raises py_error | Diverges

definition after_ops :: "canvas_op list \<Rightarrow> (real \<times> canvas_op list) outcome \<Rightarrow> (real \<times> canvas_op list) outcome" where
  "after_ops ops r =
     (case r of Returns (h, ops') \<Rightarrow> Returns (h, ops @ ops') | Raises e \<Rightarrow> Raises e | Diverges \<Rightarrow> Diverges)"

text \<open>\<^verbatim>\<open>self.color if self.color else default\<close>: an empty string counts as absent.\<close>

definition color_or :: "string option \<Rightarrow> string \<Rightarrow> string" where
  "color_or color dflt = (case color of None \<Rightarrow> dflt | Some c \<Rightarrow> if c \<noteq> [] then c else dflt)"

text \<open>The loop that draws the wrapped lines of a text element, \<open>step\<close> apart.\<close>

fun draw_lines :: "real \<Rightarrow> real \<Rightarrow> real \<Rightarrow> string list \<Rightarrow> canvas_op list" where
  "draw_lines x current_y step [] = []"
| "draw_lines x current_y step (line # lines) =
     DrawString x current_y line # draw_lines x (current_y - step) step lines"

subsection \<open>Text elements\<close>

text \<open>
  Each \<^verbatim>\<open>render\<close> of a text class calls \<^verbatim>\<open>setFont\<close> first and
  \<^verbatim>\<open>setFillColor(HexColor(color))\<close> second; \<^verbatim>\<open>wrap_text\<close> and the drawing follow.
\<close>

definition Head1_render :: "world \<Rightarrow> string \<Rightarrow> string option \<Rightarrow> real \<Rightarrow> real \<Rightarrow> theme
   \<Rightarrow> (real \<times> canvas_op list) outcome"
where
  "Head1_render canvas_obj text color x y th =
     (let font_name = theme_get (theme_font th) ''Helvetica'' @ ''-Bold'';
          font_size = theme_get (theme_header_font_size th) 48;
          color = color_or color (theme_get (theme_header_color th) ''#FF5733'');
          max_width = get_available_width;
          lines = wrap_text canvas_obj text font_name font_size max_width;
          total_height = real (length lines) * (font_size + 5) + 5
      in if \<not> font_registered canvas_obj font_name then Raises KeyError
         else if HexColor_error canvas_obj color \<noteq> None then Raises ValueError
         else Returns (total_height,
                [SetFont font_name font_size, SetFillColor color] @ draw_lines x y (font_size + 5) lines))"

definition Head2_render :: "world \<Rightarrow> string \<Rightarrow> string option \<Rightarrow> real \<Rightarrow> real \<Rightarrow> theme
   \<Rightarrow> (real \<times> canvas_op list) outcome"
where
  "Head2_render canvas_obj text color x y th =
     (let font_name = theme_get (theme_font th) ''Helvetica'' @ ''-Bold'';
          font_size = double (theme_get (theme_header_font_size th) 48 * double 0.75);
          color = color_or color (theme_get (theme_header_color th) ''#FF5733'');
          max_width = get_available_width;
          lines = wrap_text canvas_obj text font_name font_size max_width;
          total_height = real (length lines) * (font_size + 4) + 4
      in if \<not> font_registered canvas_obj font_name then Raises KeyError
         else if HexColor_error canvas_obj color \<noteq> None then Raises ValueError
         else Returns (total_height,
                [SetFont font_name font_size, SetFillColor color] @ draw_lines x y (font_size + 4) lines))"

definition Head3_render :: "world \<Rightarrow> string \<Rightarrow> string option \<Rightarrow> real \<Rightarrow> real \<Rightarrow> theme
   \<Rightarrow> (real \<times> canvas_op list) outcome"
where
  "Head3_render canvas_obj text color x y th =
     (let font_name = theme_get (theme_font th) ''Helvetica'' @ ''-Bold'';
          font_size = double (theme_get (theme_header_font_size th) 48 * double 0.6);
          color = color_or color (theme_get (theme_header_color th) ''#FF5733'');
          max_width = get_available_width;
          lines = wrap_text canvas_obj text font_name font_size max_width;
          total_height = real (length lines) * (font_size + 3) + 3
      in if \<not> font_registered canvas_obj font_name then Raises KeyError
         else if HexColor_error canvas_obj color \<noteq> None then Raises ValueError
         else Returns (total_height,
                [SetFont font_name font_size, SetFillColor color] @ draw_lines x y (font_size + 3) lines))"

definition BodyText_render :: "world \<Rightarrow> string \<Rightarrow> string option \<Rightarrow> real \<Rightarrow> real \<Rightarrow> theme
   \<Rightarrow> (real \<times> canvas_op list) outcome"
where
  "BodyText_render canvas_obj text color x y th =
     (let font_name = theme_get (theme_font th) ''Helvetica'';
          font_size = theme_get (theme_font_size th) 24;
          color = color_or color (theme_get (theme_font_color th) ''#000000'');
          max_width = get_available_width;
          lines = wrap_text canvas_obj text font_name font_size max_width;
          total_height = real (length lines) * (font_size + 2) + 3
      in if \<not> font_registered canvas_obj font_name then Raises KeyError
         else if HexColor_error canvas_obj color \<noteq> None then Raises ValueError
         else Returns (total_height,
                [SetFont font_name font_size, SetFillColor color] @ draw_lines x y (font_size + 2) lines))"

definition Bold_render :: "world \<Rightarrow> string \<Rightarrow> string option \<Rightarrow> real \<Rightarrow> real \<Rightarrow> theme
   \<Rightarrow> (real \<times> canvas_op list) outcome"
where
  "Bold_render canvas_obj text color x y th =
     (let font_name = theme_get (theme_font th) ''Helvetica'' @ ''-Bold'';
          font_size = theme_get (theme_font_size th) 24;
          color = color_or color (theme_get (theme_font_color th) ''#000000'');
          max_width = get_available_width;
          lines = wrap_text canvas_obj text font_name font_size max_width;
          total_height = real (length lines) * (font_size + 2) + 3
      in if \<not> font_registered canvas_obj font_name then Raises KeyError
         else if HexColor_error canvas_obj color \<noteq> None then Raises ValueError
         else Returns (total_height,
                [SetFont font_name font_size, SetFillColor color] @ draw_lines x y (font_size + 2) lines))"

subsection \<open>\<^verbatim>\<open>Code\<close>: the lines of a block\<close>

text \<open>\<^verbatim>\<open>not line.strip()\<close>.\<close>

definition blank :: "string \<Rightarrow> bool" where
  "blank line \<longleftrightarrow> strip line = []"

definition apply_basic_highlighting :: "string \<Rightarrow> string \<Rightarrow> string" where
  "apply_basic_highlighting code language = code"

text \<open>
  The lines \<^verbatim>\<open>code_lines\<close> of \<^verbatim>\<open>Code.render\<close>: the highlighted code (the code
  itself, whether the lexer of the language is found or not) split at the newlines,
  without its leading and trailing blank lines.
\<close>

definition Code_lines :: "world \<Rightarrow> string \<Rightarrow> string option \<Rightarrow> string list" where
  "Code_lines canvas_obj code language =
     (let highlighted_code =
            (case language of
               None \<Rightarrow> code
             | Some l \<Rightarrow>
                 if l \<noteq> [] then
                   (if lexer_known canvas_obj l then apply_basic_highlighting code l else code)
                 else code);
          code_lines = split_on (CHR 0x0A) highlighted_code;
          code_lines = dropWhile blank code_lines;
          code_lines = rev (dropWhile blank (rev code_lines))
      in code_lines)"

subsection \<open>\<^verbatim>\<open>Code._wrap_code_line\<close>\<close>

text \<open>
  The inner \<^verbatim>\<open>for i, char in enumerate(remaining_content)\<close>: the line filled so far, and
  the index at which the loop broke, or \<open>None\<close> when it ran to its end.
\<close>

fun fill_line :: "world \<Rightarrow> string \<Rightarrow> real \<Rightarrow> real \<Rightarrow> string \<Rightarrow> string \<Rightarrow> nat \<Rightarrow> string \<times> nat option" where
  "fill_line canvas_obj font_name font_size max_width current_line [] i = (current_line, None)"
| "fill_line canvas_obj font_name font_size max_width current_line (char # cs) i =
     (let test_line = current_line @ [char]
      in if stringWidth canvas_obj test_line font_name font_size \<le> max_width
         then fill_line canvas_obj font_name font_size max_width test_line cs (Suc i)
         else (current_line, Some i))"

text \<open>
  The search for a break point: \<^verbatim>\<open>j\<close> runs over \<^verbatim>\<open>range(i, max(0, i - 20), -1)\<close>;
  the assignment \<^verbatim>\<open>break_point = i\<close> under \<^verbatim>\<open>break_point == i and i > 0\<close> follows it.
\<close>

definition find_break_point :: "string \<Rightarrow> nat \<Rightarrow> nat" where
  "find_break_point remaining_content i =
     (let break_point =
            (case List.find (\<lambda>j. remaining_content ! j \<in> set (CHR 0x09 # '' ,;()[]{}''))
                    (rev [Suc (i - 20) ..< Suc i]) of
               None \<Rightarrow> i
             | Some j \<Rightarrow> j + 1)
      in if break_point = i \<and> 0 < i then i else break_point)"

partial_function (option) wrap_code_loop ::
  "world \<Rightarrow> string \<Rightarrow> real \<Rightarrow> real \<Rightarrow> string \<Rightarrow> string list \<Rightarrow> string \<Rightarrow> string list option"
where
  "wrap_code_loop canvas_obj font_name font_size max_width leading_whitespace wrapped_lines remaining_line =
     (if remaining_line = [] then Some wrapped_lines
      else
        let indent = (if wrapped_lines \<noteq> [] then leading_whitespace @ ''    '' else leading_whitespace);
            remaining_content = (if wrapped_lines \<noteq> [] then lstrip remaining_line
                                 else drop (length leading_whitespace) remaining_line);
            filled = fill_line canvas_obj font_name font_size max_width indent remaining_content 0
        in case snd filled of
             None \<Rightarrow> Some (wrapped_lines @ [fst filled])
           | Some i \<Rightarrow>
               let break_point = find_break_point remaining_content i;
                   wrapped_lines = wrapped_lines @ [take (length indent + break_point) (fst filled)];
                   remaining_line = lstrip (drop break_point remaining_content)
               in if remaining_line = [] then Some wrapped_lines
                  else wrap_code_loop canvas_obj font_name font_size max_width
                         leading_whitespace wrapped_lines remaining_line)"

definition wrap_code_line :: "world \<Rightarrow> string \<Rightarrow> string \<Rightarrow> real \<Rightarrow> real \<Rightarrow> string list option" where
  "wrap_code_line canvas_obj line font_name font_size max_width =
     (let leading_whitespace = takeWhile (\<lambda>char. char = CHR '' '' \<or> char = CHR 0x09) line
      in if strip line = [] then Some [line]
         else if stringWidth canvas_obj line font_name font_size \<le> max_width then Some [line]
         else wrap_code_loop canvas_obj font_name font_size max_width leading_whitespace [] line)"

subsection \<open>\<^verbatim>\<open>Code._render_highlighted_line\<close>\<close>

text \<open>\<^verbatim>\<open>str.isdigit\<close>, \<^verbatim>\<open>str.isalpha\<close> and \<^verbatim>\<open>str.isalnum\<close> on a code point below 256.\<close>

definition isdigit :: "char \<Rightarrow> bool" where
  "isdigit c \<longleftrightarrow> (let n = (of_char c :: nat) in (48 \<le> n \<and> n \<le> 57) \<or> n = 178 \<or> n = 179 \<or> n = 185)"

definition isalpha :: "char \<Rightarrow> bool" where
  "isalpha c \<longleftrightarrow>
     (let n = (of_char c :: nat)
      in (65 \<le> n \<and> n \<le> 90) \<or> (97 \<le> n \<and> n \<le> 122) \<or> n = 170 \<or> n = 181 \<or> n = 186 \<or>
         (192 \<le> n \<and> n \<le> 214) \<or> (216 \<le> n \<and> n \<le> 246) \<or> (248 \<le> n \<and> n \<le> 255))"

definition isalnum :: "char \<Rightarrow> bool" where
  "isalnum c \<longleftrightarrow>
     isalpha c \<or> isdigit c \<or> (let n = (of_char c :: nat) in 188 \<le> n \<and> n \<le> 190)"

definition language_keywords :: "string option \<Rightarrow> string list" where
  "language_keywords language =
     (if language = Some ''python'' then
        [''def'', ''class'', ''if'', ''else'', ''elif'', ''for'', ''while'', ''import'', ''from'',
         ''return'', ''try'', ''except'', ''finally'', ''with'', ''as'', ''and'', ''or'', ''not'',
         ''in'', ''is'', ''lambda'', ''yield'', ''global'', ''nonlocal'', ''True'', ''False'', ''None'']
      else if language = Some ''javascript'' then
        [''function'', ''var'', ''let'', ''const'', ''if'', ''else'', ''for'', ''while'', ''do'',
         ''switch'', ''case'', ''default'', ''break'', ''continue'', ''return'', ''try'', ''catch'',
         ''finally'', ''throw'', ''new'', ''this'', ''typeof'', ''instanceof'', ''true'', ''false'',
         ''null'', ''undefined'']
      else if language = Some ''java'' then
        [''public'', ''private'', ''protected'', ''static'', ''final'', ''class'', ''interface'',
         ''extends'', ''implements'', ''if'', ''else'', ''for'', ''while'', ''do'', ''switch'',
         ''case'', ''default'', ''break'', ''continue'', ''return'', ''try'', ''catch'', ''finally'',
         ''throw'', ''throws'', ''new'', ''this'', ''super'', ''true'', ''false'', ''null'']
      else [])"

text \<open>
  The scan of a quoted string: how many characters after the opening quote belong to
  it, the closing quote included when there is one.
\<close>

fun string_end :: "char \<Rightarrow> string \<Rightarrow> nat" where
  "string_end quote_char [] = 0"
| "string_end quote_char [c] = 1"
| "string_end quote_char (c # d # cs) =
     (if c = quote_char then 1
      else if c = CHR 0x5C then 2 + string_end quote_char cs
      else 1 + string_end quote_char (d # cs))"

text \<open>
  The \<^verbatim>\<open>while i < len(line)\<close> loop, as a recursion on \<^verbatim>\<open>line[i:]\<close> and
  \<^verbatim>\<open>current_x\<close>.
\<close>

function render_highlighted_line ::
  "world \<Rightarrow> string option \<Rightarrow> string \<Rightarrow> real \<Rightarrow> real \<Rightarrow> string \<Rightarrow> real \<Rightarrow> theme \<Rightarrow> canvas_op list"
where
  "render_highlighted_line canvas_obj language line current_x y font_name font_size th =
     (case line of
        [] \<Rightarrow> []
      | char # rest \<Rightarrow>
          if char = CHR ''#'' \<or> (char = CHR ''/'' \<and> rest \<noteq> [] \<and> hd rest = CHR ''/'') then
            [SetFillColor ''#808080'', DrawString current_x y line]
          else if char = CHR 0x22 \<or> char = CHR 0x27 then
            (let string_text = take (1 + string_end char rest) line
             in [SetFillColor ''#008000'', DrawString current_x y string_text] @
                render_highlighted_line canvas_obj language (drop (1 + string_end char rest) line)
                  (current_x + stringWidth canvas_obj string_text font_name font_size)
                  y font_name font_size th)
          else if isdigit char then
            (let number_text = takeWhile (\<lambda>c. isdigit c \<or> c = CHR ''.'') line
             in [SetFillColor ''#FF6600'', DrawString current_x y number_text] @
                render_highlighted_line canvas_obj language
                  (dropWhile (\<lambda>c. isdigit c \<or> c = CHR ''.'') line)
                  (current_x + stringWidth canvas_obj number_text font_name font_size)
                  y font_name font_size th)
          else if isalpha char \<or> char = CHR ''_'' then
            (let word = takeWhile (\<lambda>c. isalnum c \<or> c = CHR ''_'') line
             in [SetFillColor
                   (if word \<in> set (language_keywords language) then ''#0000FF''
                    else theme_get (theme_font_color th) ''#000000''),
                 DrawString current_x y word] @
                render_highlighted_line canvas_obj language
                  (dropWhile (\<lambda>c. isalnum c \<or> c = CHR ''_'') line)
                  (current_x + stringWidth canvas_obj word font_name font_size)
                  y font_name font_size th)
          else
            [SetFillColor (theme_get (theme_font_color th) ''#000000''),
             DrawString current_x y [char]] @
            render_highlighted_line canvas_obj language rest
              (current_x + stringWidth canvas_obj [char] font_name font_size)
              y font_name font_size th)"
  by pat_completeness auto
termination
proof (relation "measure (\<lambda>(canvas_obj, language, line, others). length line)", goal_cases)
  case 1
  show ?case by simp
next
  case (2 canvas_obj language line current_x y font_name font_size th char rest)
  then show ?case by simp
next
  case (3 canvas_obj language line current_x y font_name font_size th char rest)
  then show ?case by (simp add: less_Suc_eq_le length_dropWhile_le)
next
  case (4 canvas_obj language line current_x y font_name font_size th char rest)
  then show ?case by (auto simp: less_Suc_eq_le length_dropWhile_le isalnum_def)
next
  case (5 canvas_obj language line current_x y font_name font_size th char rest)
  then show ?case by simp
qed

subsection \<open>\<^verbatim>\<open>Code.render\<close>\<close>

text \<open>
  Before its loop \<^verbatim>\<open>Code.render\<close> reads the background colour and the font colour
  of the theme with \<^verbatim>\<open>HexColor\<close> and sets the font Courier.
\<close>

text \<open>The loop over the segments of one wrapped line: the log and the next \<^verbatim>\<open>current_y\<close>.\<close>

fun draw_wrapped ::
  "world \<Rightarrow> string option \<Rightarrow> real \<Rightarrow> real \<Rightarrow> string \<Rightarrow> real \<Rightarrow> real \<Rightarrow> theme \<Rightarrow> string list
   \<Rightarrow> canvas_op list \<times> real"
where
  "draw_wrapped canvas_obj language x current_y font_name font_size line_height th [] = ([], current_y)"
| "draw_wrapped canvas_obj language x current_y font_name font_size line_height th (wrapped_line # ws) =
     (case draw_wrapped canvas_obj language x (current_y - line_height) font_name font_size
             line_height th ws of
        (ops, y') \<Rightarrow>
          (render_highlighted_line canvas_obj language wrapped_line x current_y font_name font_size th
             @ ops, y'))"

text \<open>The loop over \<^verbatim>\<open>code_lines\<close>; \<open>None\<close> when the wrapping of a line never ends.\<close>

fun draw_code_lines ::
  "world \<Rightarrow> string option \<Rightarrow> real \<Rightarrow> real \<Rightarrow> string \<Rightarrow> real \<Rightarrow> real \<Rightarrow> real \<Rightarrow> theme \<Rightarrow> string list
   \<Rightarrow> canvas_op list option"
where
  "draw_code_lines canvas_obj language x current_y font_name font_size max_width line_height th [] =
     Some []"
| "draw_code_lines canvas_obj language x current_y font_name font_size max_width line_height th
     (line # ls) =
     (let line_width = stringWidth canvas_obj line font_name font_size
      in if line_width \<le> max_width then
           map_option
             (\<lambda>ops. render_highlighted_line canvas_obj language line x current_y font_name font_size th
                      @ ops)
             (draw_code_lines canvas_obj language x (current_y - line_height) font_name font_size
                max_width line_height th ls)
         else
           (case wrap_code_line canvas_obj line font_name font_size max_width of
              None \<Rightarrow> None
            | Some wrapped_lines \<Rightarrow>
                (case draw_wrapped canvas_obj language x current_y font_name font_size line_height
                        th wrapped_lines of
                   (ops, y') \<Rightarrow>
                     map_option (\<lambda>ops'. ops @ ops')
                       (draw_code_lines canvas_obj language x y' font_name font_size max_width
                          line_height th ls))))"

definition Code_render ::
  "world \<Rightarrow> string \<Rightarrow> string option \<Rightarrow> string \<Rightarrow> real \<Rightarrow> real \<Rightarrow> theme
   \<Rightarrow> (real \<times> canvas_op list) outcome"
where
  "Code_render canvas_obj code language background_color x y th =
     (let font_name = ''Courier'';
          font_size = theme_get (theme_font_size th) 24 * 0.8;
          max_width = get_available_width - 20;
          code_lines = Code_lines canvas_obj code language;
          line_height = font_size + 2;
          padding = 10;
          total_content_height = real (length code_lines) * line_height + (2 * padding)
      in if HexColor_error canvas_obj background_color \<noteq> None then Raises ValueError
         else if HexColor_error canvas_obj (theme_get (theme_font_color th) ''#000000'') \<noteq> None
           then Raises ValueError
         else if \<not> font_registered canvas_obj font_name then Raises KeyError
         else
           case draw_code_lines canvas_obj language x (y - padding) font_name font_size max_width
                  line_height th code_lines of
             None \<Rightarrow> Diverges
           | Some ops \<Rightarrow>
             Returns (total_content_height + 10,
               [SetFillColor background_color,
                Rect (x - 10) (y - total_content_height + padding) (max_width + 20)
                  total_content_height,
                SetFillColor (theme_get (theme_font_color th) ''#000000''),
                SetFont font_name font_size] @ ops))"

subsection \<open>\<^verbatim>\<open>Img.render\<close> and \<^verbatim>\<open>BackgroundImage.render\<close>\<close>

text \<open>
  The \<^verbatim>\<open>except Exception as e\<close> branch of \<^verbatim>\<open>Img.render\<close>, with what was drawn
  before the exception and with \<^verbatim>\<open>str(e)\<close>. Its \<^verbatim>\<open>setFont\<close> is outside any
  \<^verbatim>\<open>try\<close>: for a font that is not registered the \<^verbatim>\<open>KeyError\<close> leaves the method.
\<close>

definition Img_error ::
  "world \<Rightarrow> canvas_op list \<Rightarrow> string \<Rightarrow> real \<Rightarrow> real \<Rightarrow> theme \<Rightarrow> (real \<times> canvas_op list) outcome"
where
  "Img_error canvas_obj drawn message x y th =
     (let font = theme_get (theme_font th) ''Helvetica''
      in if \<not> font_registered canvas_obj font then Raises KeyError
         else Returns (30,
                drawn @
                [SetFont font (theme_get (theme_font_size th) 24),
                 SetFillColor ''#FF0000'',
                 DrawString x y (''[Error loading image: '' @ message @ '']'')]))"

text \<open>
  \<^verbatim>\<open>Img.render\<close>. An exception inside the \<^verbatim>\<open>try\<close> leads to the branch above: the
  exception of \<^verbatim>\<open>ImageReader\<close>, the division by a size of 0, the \<^verbatim>\<open>KeyError\<close> of
  \<^verbatim>\<open>setFont\<close> (after which the \<^verbatim>\<open>setFont\<close> of that branch raises it again) and the
  \<^verbatim>\<open>ValueError\<close> of \<^verbatim>\<open>HexColor\<close> for the font colour of the caption.
\<close>

definition Img_render ::
  "world \<Rightarrow> string \<Rightarrow> string \<Rightarrow> real \<Rightarrow> real \<Rightarrow> theme \<Rightarrow> (real \<times> canvas_op list) outcome"
where
  "Img_render canvas_obj path caption x y th =
     (let font = theme_get (theme_font th) ''Helvetica''
      in case image_at canvas_obj path of
        Readable img_width img_height \<Rightarrow>
          if img_width = 0 \<or> img_height = 0
          then Img_error canvas_obj [] ''division by zero'' x y th
          else
            let max_width = 400;
                max_height = 300;
                scale = min (max_width / real img_width) (min (max_height / real img_height) 1);
                scaled_width = real img_width * scale;
                scaled_height = real img_height * scale;
                total_height = scaled_height;
                drawn = [DrawImage path x (y - scaled_height) scaled_width scaled_height]
            in if caption \<noteq> [] then
                 (if \<not> font_registered canvas_obj font then Raises KeyError
                  else
                    case HexColor_error canvas_obj (theme_get (theme_font_color th) ''#000000'') of
                      Some message \<Rightarrow>
                        Img_error canvas_obj
                          (drawn @ [SetFont font (theme_get (theme_font_size th) 20)]) message x y th
                    | None \<Rightarrow>
                        Returns (total_height + 30,
                          drawn @
                          [SetFont font (theme_get (theme_font_size th) 20),
                           SetFillColor (theme_get (theme_font_color th) ''#000000''),
                           DrawString x (y - scaled_height - 25) caption]))
               else Returns (total_height, drawn)
      | Unreadable message \<Rightarrow> Img_error canvas_obj [] message x y th
      | Missing \<Rightarrow>
          if \<not> font_registered canvas_obj font then Raises KeyError
          else
            (let ops = [SetFont font (theme_get (theme_font_size th) 24),
                        SetFillColor ''#FF0000'',
                        DrawString x y (''[Image not found: '' @ path @ '']'')]
             in if caption \<noteq> [] then Returns (60, ops @ [DrawString x (y - 30) caption])
                else Returns (30, ops)))"

definition BackgroundImage_render :: "world \<Rightarrow> string \<Rightarrow> real \<Rightarrow> real \<Rightarrow> theme \<Rightarrow> real \<times> canvas_op list" where
  "BackgroundImage_render canvas_obj path x y th =
     (case image_at canvas_obj path of
        Readable img_width img_height \<Rightarrow>
          (0, [DrawImage path 0 0 (fst SLIDE_16_9) (snd SLIDE_16_9)])
      | Unreadable message \<Rightarrow> (0, [])
      | Missing \<Rightarrow> (0, []))"

subsection \<open>\<^verbatim>\<open>Center\<close> and \<^verbatim>\<open>TitleSlide\<close>: the horizontal position\<close>

text \<open>\<^verbatim>\<open>isinstance(element, (Head1, Head2, Head3, BodyText, Bold))\<close>.\<close>

fun is_text_element :: "element \<Rightarrow> bool" where
  "is_text_element (Head1 text color) = True"
| "is_text_element (Head2 text color) = True"
| "is_text_element (Head3 text color) = True"
| "is_text_element (BodyText text color) = True"
| "is_text_element (Bold text color) = True"
| "is_text_element e = False"

fun Center_estimate_text_width :: "element \<Rightarrow> world \<Rightarrow> theme \<Rightarrow> real" where
  "Center_estimate_text_width (Head1 text color) canvas_obj th =
     stringWidth canvas_obj text (theme_get (theme_font th) ''Helvetica'' @ ''-Bold'')
       (theme_get (theme_header_font_size th) 48)"
| "Center_estimate_text_width (Head2 text color) canvas_obj th =
     stringWidth canvas_obj text (theme_get (theme_font th) ''Helvetica'' @ ''-Bold'')
       (double (theme_get (theme_header_font_size th) 48 * double 0.75))"
| "Center_estimate_text_width (Head3 text color) canvas_obj th =
     stringWidth canvas_obj text (theme_get (theme_font th) ''Helvetica'' @ ''-Bold'')
       (double (theme_get (theme_header_font_size th) 48 * double 0.6))"
| "Center_estimate_text_width (BodyText text color) canvas_obj th =
     stringWidth canvas_obj text (theme_get (theme_font th) ''Helvetica'')
       (theme_get (theme_font_size th) 24)"
| "Center_estimate_text_width (Bold text color) canvas_obj th =
     stringWidth canvas_obj text (theme_get (theme_font th) ''Helvetica'' @ ''-Bold'')
       (theme_get (theme_font_size th) 24)"
| "Center_estimate_text_width e canvas_obj th = 0"

text \<open>The \<^verbatim>\<open>center_x\<close> at which \<^verbatim>\<open>Center.render\<close> renders its element.\<close>

definition Center_center_x :: "world \<Rightarrow> element \<Rightarrow> theme \<Rightarrow> real" where
  "Center_center_x canvas_obj element th =
     (let page_width = fst SLIDE_16_9;
          available_width = page_width - DEFAULT_MARGIN_LEFT - DEFAULT_MARGIN_RIGHT;
          center_x = DEFAULT_MARGIN_LEFT + (available_width / 2)
      in if is_text_element element then
           (let estimated_text_width = Center_estimate_text_width element canvas_obj th;
                center_x = max DEFAULT_MARGIN_LEFT (center_x - (estimated_text_width / 2));
                center_x = min center_x (page_width - DEFAULT_MARGIN_RIGHT - estimated_text_width)
            in center_x)
         else center_x)"

text \<open>The width of the longest wrapped line, from 0.\<close>

definition max_line_width :: "world \<Rightarrow> string \<Rightarrow> string \<Rightarrow> real \<Rightarrow> real" where
  "max_line_width canvas_obj text font_name font_size =
     foldl (\<lambda>max_line_width line. max max_line_width (stringWidth canvas_obj line font_name font_size))
       0 (wrap_text canvas_obj text font_name font_size get_available_width)"

fun TitleSlide_estimate_text_width :: "element \<Rightarrow> world \<Rightarrow> theme \<Rightarrow> real" where
  "TitleSlide_estimate_text_width (Head1 text color) canvas_obj th =
     max_line_width canvas_obj text (theme_get (theme_font th) ''Helvetica'' @ ''-Bold'')
       (theme_get (theme_header_font_size th) 48)"
| "TitleSlide_estimate_text_width (Head2 text color) canvas_obj th =
     max_line_width canvas_obj text (theme_get (theme_font th) ''Helvetica'' @ ''-Bold'')
       (double (theme_get (theme_header_font_size th) 48 * double 0.75))"
| "TitleSlide_estimate_text_width (Head3 text color) canvas_obj th =
     max_line_width canvas_obj text (theme_get (theme_font th) ''Helvetica'' @ ''-Bold'')
       (double (theme_get (theme_header_font_size th) 48 * double 0.6))"
| "TitleSlide_estimate_text_width (BodyText text color) canvas_obj th =
     max_line_width canvas_obj text (theme_get (theme_font th) ''Helvetica'')
       (theme_get (theme_font_size th) 24)"
| "TitleSlide_estimate_text_width (Bold text color) canvas_obj th =
     max_line_width canvas_obj text (theme_get (theme_font th) ''Helvetica'' @ ''-Bold'')
       (theme_get (theme_font_size th) 24)"
| "TitleSlide_estimate_text_width e canvas_obj th = 0"

definition TitleSlide_center_x :: "world \<Rightarrow> element \<Rightarrow> theme \<Rightarrow> real" where
  "TitleSlide_center_x canvas_obj element th =
     (let page_width = fst SLIDE_16_9;
          available_width = page_width - DEFAULT_MARGIN_LEFT - DEFAULT_MARGIN_RIGHT
      in if is_text_element element then
           (let estimated_text_width = TitleSlide_estimate_text_width element canvas_obj th;
                center_x = (page_width / 2) - (estimated_text_width / 2);
                center_x = max DEFAULT_MARGIN_LEFT center_x;
                center_x = min center_x (page_width - DEFAULT_MARGIN_RIGHT - estimated_text_width)
            in center_x)
         else DEFAULT_MARGIN_LEFT + (available_width / 2))"

subsection \<open>\<^verbatim>\<open>render\<close>\<close>

text \<open>
  \<open>render canvas_obj element x y theme\<close> is \<^verbatim>\<open>element.render(canvas_obj, x, y, theme)\<close>:
  the height returned and the drawing calls made, in order. \<open>render_stack\<close> is the loop
  of \<^verbatim>\<open>CombinedElement.render\<close> with its \<^verbatim>\<open>current_y\<close> and \<^verbatim>\<open>total_height\<close>,
  \<open>render_columns\<close> the loop of \<^verbatim>\<open>GridLayout.render\<close> with its index \<^verbatim>\<open>i\<close> and
  \<^verbatim>\<open>max_height\<close>.
\<close>

fun render :: "world \<Rightarrow> element \<Rightarrow> real \<Rightarrow> real \<Rightarrow> theme \<Rightarrow> (real \<times> canvas_op list) outcome"
  and render_stack ::
    "world \<Rightarrow> element list \<Rightarrow> real \<Rightarrow> real \<Rightarrow> theme \<Rightarrow> real \<Rightarrow> (real \<times> canvas_op list) outcome"
  and render_columns ::
    "world \<Rightarrow> element list \<Rightarrow> nat \<Rightarrow> int \<Rightarrow> real \<Rightarrow> real \<Rightarrow> theme \<Rightarrow> real
     \<Rightarrow> (real \<times> canvas_op list) outcome"
where
  "render canvas_obj (Head1 text color) x y th = Head1_render canvas_obj text color x y th"
| "render canvas_obj (Head2 text color) x y th = Head2_render canvas_obj text color x y th"
| "render canvas_obj (Head3 text color) x y th = Head3_render canvas_obj text color x y th"
| "render canvas_obj (BodyText text color) x y th = BodyText_render canvas_obj text color x y th"
| "render canvas_obj (Bold text color) x y th = Bold_render canvas_obj text color x y th"
| "render canvas_obj (Code code language background_color) x y th =
     Code_render canvas_obj code language background_color x y th"
| "render canvas_obj (Img path caption) x y th = Img_render canvas_obj path caption x y th"
| "render canvas_obj (Center element) x y th =
     render canvas_obj element (Center_center_x canvas_obj element th) y th"
| "render canvas_obj (Bottom element) x y th =
     (let bottom_y = 50 in render canvas_obj element x bottom_y th)"
| "render canvas_obj (TitleSlide element) x y th =
     (let center_y = snd SLIDE_16_9 / 2
      in render canvas_obj element (TitleSlide_center_x canvas_obj element th) center_y th)"
| "render canvas_obj (GridLayout es columns) x y th =
     (let page_width = fst SLIDE_16_9
      in if columns = 0 then Raises ZeroDivisionError
         else
           let column_width = (page_width - 100) / real_of_int columns
           in render_columns canvas_obj es 0 columns column_width y th 0)"
| "render canvas_obj (BackgroundImage path) x y th =
     Returns (BackgroundImage_render canvas_obj path x y th)"
| "render canvas_obj (CombinedElement es) x y th =
     render_stack canvas_obj es x y th 0"
| "render_stack canvas_obj [] x current_y th total_height = Returns (total_height, [])"
| "render_stack canvas_obj (element # es) x current_y th total_height =
     (case render canvas_obj element x current_y th of
        Returns (height, ops) \<Rightarrow>
          after_ops ops
            (render_stack canvas_obj es x (current_y - height) th (total_height + height))
      | Raises e \<Rightarrow> Raises e
      | Diverges \<Rightarrow> Diverges)"
| "render_columns canvas_obj [] i columns column_width y th max_height = Returns (max_height, [])"
| "render_columns canvas_obj (element # es) i columns column_width y th max_height =
     (if columns \<le> int i then Returns (max_height, [])
      else
        let column_x = 50 + (real i * column_width)
        in case render canvas_obj element column_x y th of
             Returns (height, ops) \<Rightarrow>
               after_ops ops
                 (render_columns canvas_obj es (Suc i) columns column_width y th
                    (max max_height height))
           | Raises e \<Rightarrow> Raises e
           | Diverges \<Rightarrow> Diverges)"

subsection \<open>The default theme of \<^verbatim>\<open>Config.get_default_config\<close>\<close>

definition default_theme :: theme where
  "default_theme =
     \<lparr>theme_font = Some ''Helvetica'', theme_font_size = Some 24,
      theme_header_font_size = Some 48, theme_font_color = Some ''#000000'',
      theme_header_color = Some ''#FF5733'', theme_background_color = Some ''#FFFFFF''\<rparr>"

subsection \<open>A canvas for the examples\<close>

text \<open>
  A canvas on which every character is 0.6 of the font size wide, which is the
  \<^verbatim>\<open>stringWidth\<close> of the fonts Courier and Courier-Bold, in a directory with no image
  files; it knows the fonts that reportlab has without registration and reads the
  colours written as \<^verbatim>\<open>#\<close> and six hexadecimal digits. And the default theme with
  Courier as its font.
\<close>

definition standard_fonts :: "string list" where
  "standard_fonts =
     [''Courier'', ''Courier-Bold'', ''Courier-Oblique'', ''Courier-BoldOblique'',
      ''Helvetica'', ''Helvetica-Bold'', ''Helvetica-Oblique'', ''Helvetica-BoldOblique'',
      ''Times-Roman'', ''Times-Bold'', ''Times-Italic'', ''Times-BoldItalic'',
      ''Symbol'', ''ZapfDingbats'']"

definition monospace_canvas :: world where
  "monospace_canvas =
     \<lparr>stringWidth = (\<lambda>text font_name font_size. real (length text) * (font_size * 0.6)),
      image_at = (\<lambda>path. Missing),
      lexer_known = (\<lambda>language. language = ''python''),
      font_registered = (\<lambda>font_name. font_name \<in> set standard_fonts),
      HexColor_error =
        (\<lambda>color. if length color = 7 \<and> take 1 color = ''#'' \<and>
                     list_all (\<lambda>c. c \<in> set ''0123456789abcdefABCDEF'') (drop 1 color)
                  then None
                  else Some ''invalid literal for int() with base 16'')\<rparr>"

definition courier_theme :: theme where
  "courier_theme = default_theme\<lparr>theme_font := Some ''Courier''\<rparr>"



subsection \<open>The line-height formula of a text element\<close>

text \<open>
  What the five \<^verbatim>\<open>render\<close> methods of the text classes share: the text, the font
  name, the font size and the colour of the class, the gap added to the font size for
  the height of a line, and the gap after the element.
\<close>

fun text_of :: "element \<Rightarrow> string" where
  "text_of (Head1 text color) = text"
| "text_of (Head2 text color) = text"
| "text_of (Head3 text color) = text"
| "text_of (BodyText text color) = text"
| "text_of (Bold text color) = text"
| "text_of e = []"

fun text_font_name :: "element \<Rightarrow> theme \<Rightarrow> string" where
  "text_font_name (BodyText text color) th = theme_get (theme_font th) ''Helvetica''"
| "text_font_name e th = theme_get (theme_font th) ''Helvetica'' @ ''-Bold''"

fun text_font_size :: "element \<Rightarrow> theme \<Rightarrow> real" where
  "text_font_size (Head1 text color) th = theme_get (theme_header_font_size th) 48"
| "text_font_size (Head2 text color) th = double (theme_get (theme_header_font_size th) 48 * double 0.75)"
| "text_font_size (Head3 text color) th = double (theme_get (theme_header_font_size th) 48 * double 0.6)"
| "text_font_size e th = theme_get (theme_font_size th) 24"

fun line_gap :: "element \<Rightarrow> real" where
  "line_gap (Head1 text color) = 5"
| "line_gap (Head2 text color) = 4"
| "line_gap (Head3 text color) = 3"
| "line_gap e = 2"

fun trailing_gap :: "element \<Rightarrow> real" where
  "trailing_gap (Head1 text color) = 5"
| "trailing_gap (Head2 text color) = 4"
| "trailing_gap e = 3"

fun text_color :: "element \<Rightarrow> theme \<Rightarrow> string" where
  "text_color (Head1 text color) th = color_or color (theme_get (theme_header_color th) ''#FF5733'')"
| "text_color (Head2 text color) th = color_or color (theme_get (theme_header_color th) ''#FF5733'')"
| "text_color (Head3 text color) th = color_or color (theme_get (theme_header_color th) ''#FF5733'')"
| "text_color (BodyText text color) th = color_or color (theme_get (theme_font_color th) ''#000000'')"
| "text_color (Bold text color) th = color_or color (theme_get (theme_font_color th) ''#000000'')"
| "text_color e th = []"

definition text_height :: "element \<Rightarrow> theme \<Rightarrow> real \<Rightarrow> real" where
  "text_height e th line_count =
     line_count * (text_font_size e th + line_gap e) + trailing_gap e"

subsection \<open>An example code block\<close>

definition example_code :: string where
  "example_code = ''  x = 1'' @ [CHR 0x0A, CHR 0x0A] @ ''  y = 2''"

subsection \<open>Progress of \<^verbatim>\<open>_wrap_code_line\<close>\<close>

text \<open>
  A line on which the wrapping loop advances in every round: behind the indentation of
  the line, and behind the indentation of a continuation, each character of the line
  fits by itself.
\<close>

definition wrap_progress :: "world \<Rightarrow> string \<Rightarrow> real \<Rightarrow> real \<Rightarrow> string \<Rightarrow> bool" where
  "wrap_progress canvas_obj font_name font_size max_width line \<longleftrightarrow>
     (let leading_whitespace = takeWhile (\<lambda>char. char = CHR '' '' \<or> char = CHR 0x09) line
      in \<forall>char\<in>set line.
           stringWidth canvas_obj (leading_whitespace @ [char]) font_name font_size \<le> max_width \<and>
           stringWidth canvas_obj (leading_whitespace @ ''    '' @ [char]) font_name font_size
             \<le> max_width)"

text \<open>A line of 70 characters: on the example canvas, at the default theme, 58 fit.\<close>

definition long_code_line :: string where
  "long_code_line = ''aaaaaaaaaaaaaaaaaaaaaaaaaaaaaaaaaaaaaaaaaaaaaaaaaaaaaaaaaaaaaaaaaaaaaa''"

text \<open>A line indented by 58 spaces: together with its one character it does not fit.\<close>

definition deep_code_line :: string where
  "deep_code_line = ''                                                          x''"

text \<open>
  A text of ten words, of 99 characters: at size 24 on the example canvas the text is
  wider than the page, and it wraps into three lines that fit.
\<close>

definition ten_words :: string where
  "ten_words = ''aaaaaaaaa aaaaaaaaa aaaaaaaaa aaaaaaaaa aaaaaaaaa aaaaaaaaa aaaaaaaaa aaaaaaaaa aaaaaaaaa aaaaaaaaa''"

section \<open>Properties\<close>

subsection \<open>Doubles\<close>

text \<open>The exponent of a number between two powers of 2 that follow each other.\<close>

lemma exponent_up_eq:
  "2 ^ k \<le> x \<Longrightarrow> x < 2 ^ Suc k \<Longrightarrow> exponent_up x = int k"
proof (induction k arbitrary: x)
  case 0
  then show ?case by (simp add: exponent_up.simps)
next
  case (Suc k)
  have "2 \<le> x"
  proof -
    have "(2 :: real) = 2 ^ 1" by simp
    also have "\<dots> \<le> 2 ^ Suc k" by (rule power_increasing) simp_all
    finally show ?thesis using Suc.prems(1) by linarith
  qed
  moreover have "exponent_up (x / 2) = int k" using Suc.prems by (intro Suc.IH) simp_all
  ultimately show ?case by (subst exponent_up.simps) simp
qed

lemma exponent_down_eq:
  "1 / 2 ^ Suc k \<le> x \<Longrightarrow> x < 1 / 2 ^ k \<Longrightarrow> exponent_down x = - int (Suc k)"
proof (induction k arbitrary: x)
  case 0
  then have "0 < x" "x < 1" "\<not> 2 * x < 1" by simp_all
  then show ?case by (subst exponent_down.simps, subst exponent_down.simps) simp
next
  case (Suc k)
  have pos: "0 < x" using Suc.prems(1) by (smt (verit) divide_pos_pos zero_less_power)
  have "(1 :: real) \<le> 2 ^ Suc k" by (rule one_le_power) simp
  then have "(1 :: real) / 2 ^ Suc k \<le> 1" by (simp add: divide_le_eq_1 del: power_Suc)
  then have lt: "x < 1" using Suc.prems(2) by linarith
  have "exponent_down (2 * x) = - int (Suc k)" using Suc.prems by (intro Suc.IH) (simp_all add: field_simps)
  then show ?case using pos lt by (subst exponent_down.simps) simp
qed

lemma exponent_eq:
  "2 ^ k \<le> x \<Longrightarrow> x < 2 ^ Suc k \<Longrightarrow> exponent x = int k"
  "1 / 2 ^ Suc k \<le> x \<Longrightarrow> x < 1 / 2 ^ k \<Longrightarrow> exponent x = - int (Suc k)"
proof -
  assume a: "2 ^ k \<le> x" "x < 2 ^ Suc k"
  have "(1 :: real) \<le> 2 ^ k" by simp
  then have "1 \<le> x" using a(1) by linarith
  then show "exponent x = int k" using exponent_up_eq[OF a] by (simp add: exponent_def)
next
  assume a: "1 / 2 ^ Suc k \<le> x" "x < 1 / 2 ^ k"
  have "(1 :: real) \<le> 2 ^ k" by (rule one_le_power) simp
  then have "(1 :: real) / 2 ^ k \<le> 1" by (simp add: divide_le_eq_1)
  then have "\<not> 1 \<le> x" using a(2) by linarith
  then show "exponent x = - int (Suc k)" using exponent_down_eq[OF a] by (simp add: exponent_def)
qed

lemma exponent_up_bounds:
  "1 \<le> x \<Longrightarrow>
   0 \<le> exponent_up x \<and> 2 ^ nat (exponent_up x) \<le> x \<and> x < 2 ^ Suc (nat (exponent_up x))"
proof (induction x rule: exponent_up.induct)
  case (1 x)
  show ?case
  proof (cases "2 \<le> x")
    case True
    then have "1 \<le> x / 2" by simp
    from 1(1)[OF True this]
    have IH: "0 \<le> exponent_up (x / 2)" "2 ^ nat (exponent_up (x / 2)) \<le> x / 2"
      "x / 2 < 2 ^ Suc (nat (exponent_up (x / 2)))"
      by simp_all
    have e: "exponent_up x = exponent_up (x / 2) + 1"
      using True by (subst exponent_up.simps) simp
    have n: "nat (exponent_up (x / 2) + 1) = Suc (nat (exponent_up (x / 2)))"
      using IH(1) by simp
    show ?thesis unfolding e n using IH by simp
  next
    case False
    then have "exponent_up x = 0" by (subst exponent_up.simps) simp
    then show ?thesis using False 1(2) by simp
  qed
qed

text \<open>An integer below \<open>2 ^ 53\<close> is a double, and no double of a number from 0 is negative.\<close>

lemma round_half_even_of_int: "round_half_even (of_int m) = m"
  by (simp add: round_half_even_def)

lemma round_half_even_nonneg: "0 \<le> r \<Longrightarrow> 0 \<le> round_half_even r"
  by (auto simp: round_half_even_def Let_def)

lemma double_nonneg: "0 \<le> x \<Longrightarrow> 0 \<le> double x"
  by (auto simp: double_def Let_def intro!: mult_nonneg_nonneg round_half_even_nonneg divide_nonneg_pos)

lemma double_of_int:
  assumes "\<bar>n\<bar> < 2 ^ 53"
  shows "double (of_int n) = of_int n"
proof (cases "n = 0")
  case True
  then show ?thesis by (simp add: double_def)
next
  case False
  let ?x = "\<bar>real_of_int n\<bar>"
  have one: "1 \<le> ?x" using False by (simp add: abs_if)
  have lt: "?x < 2 ^ 53" using assms by (metis of_int_abs of_int_less_numeral_power_cancel_iff)
  define k where "k = nat (exponent_up ?x)"
  from exponent_up_bounds[OF one] have b: "0 \<le> exponent_up ?x" "2 ^ k \<le> ?x"
    by (simp_all add: k_def)
  have e: "exponent ?x = int k" using one b(1) by (simp add: exponent_def k_def)
  have p: "(2 :: real) ^ k < 2 ^ 53" using b(2) lt by linarith
  have k: "k < 53" by (rule power_less_imp_less_exp[OF _ p]) simp
  show ?thesis
  proof (cases "k = 52")
    case True
    then show ?thesis using False e by (simp add: double_def round_half_even_of_int)
  next
    case ne: False
    then have neg: "\<not> 0 \<le> int k - 52" "nat (52 - int k) = 52 - k" using k by auto
    have "real_of_int n / (1 / 2 ^ (52 - k)) = of_int (n * 2 ^ (52 - k))" by simp
    then have "round_half_even (real_of_int n / (1 / 2 ^ (52 - k))) = n * 2 ^ (52 - k)"
      using round_half_even_of_int by presburger
    then show ?thesis using False neg e
      by (simp add: double_def Let_def)
  qed
qed

text \<open>The double of a number between two powers of 2 that follow each other.\<close>

lemma double_eval:
  assumes "x \<noteq> 0" "2 ^ k \<le> \<bar>x\<bar>" "\<bar>x\<bar> < 2 ^ Suc k" "k \<le> 52"
  shows "double x = of_int (round_half_even (x * 2 ^ (52 - k))) / 2 ^ (52 - k)"
proof -
  have e: "exponent \<bar>x\<bar> = int k" using assms(2,3) by (rule exponent_eq)
  show ?thesis
  proof (cases "k = 52")
    case True
    then show ?thesis using assms(1) e by (simp add: double_def)
  next
    case False
    then have "nat (52 - int k) = 52 - k" "\<not> 0 \<le> int k - 52" using assms(4) by auto
    then show ?thesis using assms(1) e by (simp add: double_def Let_def)
  qed
qed

lemma double_eval_small:
  assumes "1 / 2 ^ Suc k \<le> \<bar>x\<bar>" "\<bar>x\<bar> < 1 / 2 ^ k"
  shows "double x = of_int (round_half_even (x * 2 ^ (53 + k))) / 2 ^ (53 + k)"
proof -
  have e: "exponent \<bar>x\<bar> = - int (Suc k)" using assms by (rule exponent_eq)
  have "x \<noteq> 0" using assms(1) by (smt (verit) divide_pos_pos zero_less_power abs_zero)
  moreover have "nat (int k + 53) = 53 + k" by simp
  ultimately show ?thesis using e by (simp add: double_def Let_def del: power_Suc)
qed

text \<open>
  0.6 is not a double, and neither is 48 times the double of 0.6: the font size of a
  \<^verbatim>\<open>Head3\<close> at the default theme is below 28.8.
\<close>

lemma double_0_6: "double (3 / 5) = 5404319552844595 / 9007199254740992"
  using double_eval_small[of 0 "3 / 5"] by (simp add: round_half_even_def)

lemma double_48_0_6:
  "double (16212958658533785 / 562949953421312) = 2026619832316723 / 70368744177664"
  using double_eval[of "16212958658533785 / 562949953421312" 4] by (simp add: round_half_even_def)

lemma double_865_Head3:
  "double (1753026154953965395 / 70368744177664) = 6847758417788927 / 274877906944"
  using double_eval[of "1753026154953965395 / 70368744177664" 14] by (simp add: round_half_even_def)

lemma double_0_75: "double (3 / 4) = 3 / 4"
  using double_eval_small[of 0 "3 / 4"] by (simp add: round_half_even_def)

lemma double_numeral: "double 500 = 500" "double (- 1000) = - 1000" "double 4152 = 4152"
  using double_of_int[of 500] double_of_int[of "- 1000"] double_of_int[of 4152] by simp_all

subsection \<open>The example canvas\<close>

lemma monospace_canvas_reads:
  "HexColor_error monospace_canvas ''#000000'' = None"
  "HexColor_error monospace_canvas ''#FF5733'' = None"
  "HexColor_error monospace_canvas ''#F5F5F5'' = None"
  "font_registered monospace_canvas ''Courier''"
  "font_registered monospace_canvas ''Courier-Bold''"
  "font_registered monospace_canvas ''Helvetica''"
  "font_registered monospace_canvas ''Helvetica-Bold''"
  "\<not> font_registered monospace_canvas ''Comic Sans''"
  by (simp_all add: monospace_canvas_def standard_fonts_def)

subsection \<open>Pagination keeps every element, in order\<close>

text \<open>
  The loop of \<^verbatim>\<open>render_with_overflow_detection\<close> keeps this invariant: the elements
  of the closed slides followed by the pending buffer are the elements read so far, and
  the buffer is non-empty once an element has been read.
\<close>

lemma overflow_fold:
  "foldl (overflow_step th) (sl, cur, y) es = (sl', cur', y') \<Longrightarrow>
   concat (map elements sl') @ cur' = concat (map elements sl) @ cur @ es \<and>
   (cur \<noteq> [] \<or> es \<noteq> [] \<longrightarrow> cur' \<noteq> [])"
proof (induction es arbitrary: sl cur y)
  case Nil
  then show ?case by simp
next
  case (Cons e es)
  obtain sl1 cur1 y1 where st: "overflow_step th (sl, cur, y) e = (sl1, cur1, y1)"
    by (cases "overflow_step th (sl, cur, y) e") auto
  then have one: "concat (map elements sl1) @ cur1 = concat (map elements sl) @ cur @ [e]"
      "cur1 \<noteq> []"
    by (auto simp: overflow_step_def Let_def split: if_splits)
  from Cons.prems st have "foldl (overflow_step th) (sl1, cur1, y1) es = (sl', cur', y')"
    by simp
  from Cons.IH[OF this] one show ?case by simp
qed

text \<open>
  C1. For every slide with at least one element and every theme,
  \<^verbatim>\<open>render_with_overflow_detection\<close> returns at least one slide, and the element lists
  of the returned slides, concatenated in order, are the element list of the input.
\<close>

theorem pagination_covers:
  assumes "elements self \<noteq> []"
  shows "render_with_overflow_detection self th \<noteq> [] \<and>
         concat (map elements (render_with_overflow_detection self th)) = elements self"
proof -
  obtain sl cur y where f:
    "foldl (overflow_step th) ([], [], snd SLIDE_16_9 - DEFAULT_MARGIN_TOP) (elements self)
       = (sl, cur, y)"
    by (metis prod_cases3)
  from overflow_fold[OF f] assms have "concat (map elements sl) @ cur = elements self" "cur \<noteq> []"
    by auto
  then show ?thesis
    by (simp add: render_with_overflow_detection_def f Let_def)
qed

theorem pagination_covers_witness:
  "elements (Slide [Head1 ''Title'' None, Img ''a.png'' [], Img ''b.png'' []]) \<noteq> [] \<and>
   render_with_overflow_detection
     (Slide [Head1 ''Title'' None, Img ''a.png'' [], Img ''b.png'' []]) default_theme \<noteq> [] \<and>
   concat (map elements (render_with_overflow_detection
     (Slide [Head1 ''Title'' None, Img ''a.png'' [], Img ''b.png'' []]) default_theme))
     = [Head1 ''Title'' None, Img ''a.png'' [], Img ''b.png'' []]"
  using pagination_covers
    [of "Slide [Head1 ''Title'' None, Img ''a.png'' [], Img ''b.png'' []]" default_theme]
  by simp

subsection \<open>The lines of the example code block\<close>

lemma isspace_simps:
  "isspace (CHR '' '')" "isspace (CHR 0x0A)" "\<not> isspace (CHR ''x'')" "\<not> isspace (CHR ''y'')"
  "\<not> isspace (CHR ''='')" "\<not> isspace (CHR ''1'')" "\<not> isspace (CHR ''2'')"
  by (simp_all add: isspace_def)

text \<open>
  C4 (as amended). The code \<^verbatim>\<open>"  x = 1\n\n  y = 2"\<close> has three lines, the blank line
  in the middle among them: \<^verbatim>\<open>Code.render\<close> computes the height of the block from
  three lines, on every canvas and for every language, and the estimator counts three
  lines too.
\<close>

theorem code_example_lines:
  "length (Code_lines canvas_obj example_code language) = 3 \<and>
   length (estimate_code_lines example_code) = 3"
  by (simp add: Code_lines_def estimate_code_lines_def example_code_def
      apply_basic_highlighting_def blank_def strip_def lstrip_def rstrip_def isspace_simps Let_def
      split: option.split)

text \<open>C4 as stated fails: neither line count of the example is 2.\<close>

theorem code_example_lines_not_two:
  "length (Code_lines monospace_canvas example_code None) \<noteq> 2 \<and>
   length (estimate_code_lines example_code) \<noteq> 2"
  by (simp add: Code_lines_def estimate_code_lines_def example_code_def
      apply_basic_highlighting_def blank_def strip_def lstrip_def rstrip_def isspace_simps Let_def)

subsection \<open>The estimate of a text element\<close>

text \<open>
  C6 (as amended). For a \<^verbatim>\<open>Head1\<close>, \<^verbatim>\<open>Head2\<close>, \<^verbatim>\<open>Head3\<close>, \<^verbatim>\<open>BodyText\<close> or
  \<^verbatim>\<open>Bold\<close> element the estimator takes \<open>max 1 (\<lfloor>charCount * fontSize / maxWidth\<rfloor> + 1)\<close>
  lines, where the product is the double that Python computes, with the font size of
  the class and the content width, and puts them into the line-height formula of the
  class. \<^verbatim>\<open>render\<close> raises \<^verbatim>\<open>KeyError\<close> on a canvas that does not know the font of
  the class and \<^verbatim>\<open>ValueError\<close> for a colour that cannot be read; otherwise it returns
  the same formula at the number of lines that \<^verbatim>\<open>wrap_text\<close> produced.
\<close>

theorem text_estimate_formula:
  assumes "is_text_element e"
  shows "estimate_element_height e th =
           text_height e th
             (estimated_lines (text_of e) (text_font_size e th) get_available_width) \<and>
         estimated_lines (text_of e) (text_font_size e th) get_available_width =
           max 1 (of_int \<lfloor>double (real (length (text_of e)) * text_font_size e th)
                            / get_available_width\<rfloor> + 1) \<and>
         render canvas_obj e x y th =
           (if \<not> font_registered canvas_obj (text_font_name e th) then Raises KeyError
            else if HexColor_error canvas_obj (text_color e th) \<noteq> None then Raises ValueError
            else Returns
              (text_height e th
                 (real (length (wrap_text canvas_obj (text_of e) (text_font_name e th)
                                  (text_font_size e th) get_available_width))),
               [SetFont (text_font_name e th) (text_font_size e th),
                SetFillColor (text_color e th)] @
               draw_lines x y (text_font_size e th + line_gap e)
                 (wrap_text canvas_obj (text_of e) (text_font_name e th)
                    (text_font_size e th) get_available_width)))"
  using assms
  by (cases e) (simp_all add: text_height_def estimated_lines_def Head1_render_def Head2_render_def
      Head3_render_def BodyText_render_def Bold_render_def Let_def)

text \<open>
  A \<^verbatim>\<open>Head3\<close> of 865 characters at the default theme. Its font size is the double of
  48 times the double of 0.6, which is below 28.8; the double of 865 times this font
  size is below \<open>36 * 692\<close>, and the estimator takes 36 lines. In exact arithmetic
  \<open>865 * 28.8\<close> is \<open>36 * 692\<close>, which would give 37 lines.
\<close>

theorem text_estimate_formula_witness:
  "is_text_element (Head3 (replicate 865 (CHR ''a'')) None) \<and>
   text_font_size (Head3 (replicate 865 (CHR ''a'')) None) default_theme
     = 2026619832316723 / 70368744177664 \<and>
   estimated_lines (replicate 865 (CHR ''a''))
     (text_font_size (Head3 (replicate 865 (CHR ''a'')) None) default_theme) get_available_width
     = 36 \<and>
   estimate_element_height (Head3 (replicate 865 (CHR ''a'')) None) default_theme
     = 36 * (2026619832316723 / 70368744177664 + 3) + 3 \<and>
   max 1 (of_int \<lfloor>865 * (144 / 5) / get_available_width\<rfloor> + 1) = (37 :: real)"
  using text_estimate_formula [of "Head3 (replicate 865 (CHR ''a'')) None" default_theme]
  by (simp add: text_height_def get_available_width_def SLIDE_16_9_def
      DEFAULT_MARGIN_LEFT_def DEFAULT_MARGIN_RIGHT_def default_theme_def theme_get_def
      double_0_6 double_48_0_6 double_865_Head3)

text \<open>
  C6 as stated fails: for a \<^verbatim>\<open>BodyText\<close> of 173 characters at the default theme,
  \<open>173 * 24 / 692\<close> is exactly 6, its ceiling is 6, and the estimator takes 7 lines.
\<close>

theorem text_estimate_not_ceiling:
  "estimated_lines (replicate 173 (CHR ''a'')) 24 get_available_width = 7 \<and>
   \<lceil>real (length (replicate 173 (CHR ''a''))) * 24 / get_available_width\<rceil> = 6 \<and>
   estimate_element_height (BodyText (replicate 173 (CHR ''a'')) None) default_theme
     = 7 * (24 + 2) + 3"
  by (simp add: estimated_lines_def get_available_width_def SLIDE_16_9_def DEFAULT_MARGIN_LEFT_def
      DEFAULT_MARGIN_RIGHT_def default_theme_def theme_get_def double_numeral)

subsection \<open>The position chosen by \<^verbatim>\<open>Center.render\<close>\<close>

text \<open>
  For a text child \<^verbatim>\<open>Center.render\<close> measures the text as one line. The start it
  takes is the smaller of two numbers; its \<^verbatim>\<open>max\<close> with the left margin changes
  nothing, and a text measured wider than the content width starts left of the left
  margin.
\<close>

lemma Center_center_x_text:
  assumes "is_text_element e"
  shows "Center_center_x canvas_obj e th
           = min (396 - Center_estimate_text_width e canvas_obj th / 2)
                 (742 - Center_estimate_text_width e canvas_obj th)"
    and "get_available_width < Center_estimate_text_width e canvas_obj th \<Longrightarrow>
         Center_center_x canvas_obj e th < DEFAULT_MARGIN_LEFT"
    and "render canvas_obj (Center e) x y th
           = render canvas_obj e (Center_center_x canvas_obj e th) y th"
  using assms
  by (simp_all add: Center_center_x_def Let_def get_available_width_def SLIDE_16_9_def
      DEFAULT_MARGIN_LEFT_def DEFAULT_MARGIN_RIGHT_def)

lemma ten_words_wrapped:
  "wrap_text monospace_canvas ten_words ''Courier'' 24 get_available_width
     = [''aaaaaaaaa aaaaaaaaa aaaaaaaaa aaaaaaaaa'',
        ''aaaaaaaaa aaaaaaaaa aaaaaaaaa aaaaaaaaa'',
        ''aaaaaaaaa aaaaaaaaa'']"
  by (simp add: wrap_text_def wrap_word_def ten_words_def monospace_canvas_def
      get_available_width_def SLIDE_16_9_def DEFAULT_MARGIN_LEFT_def DEFAULT_MARGIN_RIGHT_def)

text \<open>
  C3. The claim is that the start chosen by \<^verbatim>\<open>Center.render\<close> is not left of the
  left margin and that the text does not pass the right margin, for a text of any
  length. For a \<^verbatim>\<open>BodyText\<close> of ten words, of 99 characters, in Courier at size 24:
  \<^verbatim>\<open>wrap_text\<close> draws three lines, the longest 561.6 wide, which fits the content width
  of 692; \<^verbatim>\<open>Center.render\<close> measures the text as one line of 1425.6 and draws the three
  lines from -683.6, left of the page; \<^verbatim>\<open>TitleSlide.render\<close>, which measures the
  longest wrapped line, takes 115.2 for the same element.
\<close>

theorem center_measures_unwrapped_text:
  "wrap_text monospace_canvas ten_words ''Courier'' 24 get_available_width
     = [''aaaaaaaaa aaaaaaaaa aaaaaaaaa aaaaaaaaa'',
        ''aaaaaaaaa aaaaaaaaa aaaaaaaaa aaaaaaaaa'',
        ''aaaaaaaaa aaaaaaaaa''] \<and>
   max_line_width monospace_canvas ten_words ''Courier'' 24 = 2808 / 5 \<and>
   Center_estimate_text_width (BodyText ten_words None) monospace_canvas courier_theme
     = 7128 / 5 \<and>
   Center_center_x monospace_canvas (BodyText ten_words None) courier_theme = - (3418 / 5) \<and>
   TitleSlide_center_x monospace_canvas (BodyText ten_words None) courier_theme = 576 / 5 \<and>
   render monospace_canvas (Center (BodyText ten_words None)) 50 300 courier_theme
     = Returns (81,
         [SetFont ''Courier'' 24, SetFillColor ''#000000'',
          DrawString (- (3418 / 5)) 300 ''aaaaaaaaa aaaaaaaaa aaaaaaaaa aaaaaaaaa'',
          DrawString (- (3418 / 5)) 274 ''aaaaaaaaa aaaaaaaaa aaaaaaaaa aaaaaaaaa'',
          DrawString (- (3418 / 5)) 248 ''aaaaaaaaa aaaaaaaaa''])"
proof -
  have width: "Center_estimate_text_width (BodyText ten_words None) monospace_canvas courier_theme
      = 7128 / 5"
    by (simp add: ten_words_def monospace_canvas_def courier_theme_def default_theme_def
        theme_get_def)
  have longest: "max_line_width monospace_canvas ten_words ''Courier'' 24 = 2808 / 5"
    by (simp add: max_line_width_def ten_words_wrapped) (simp add: monospace_canvas_def)
  have font: "theme_get (theme_font courier_theme) ''Helvetica'' = ''Courier''"
    "theme_get (theme_font_size courier_theme) 24 = 24"
    "theme_get (theme_font_color courier_theme) ''#000000'' = ''#000000''"
    by (simp_all add: courier_theme_def default_theme_def theme_get_def)
  have center: "Center_center_x monospace_canvas (BodyText ten_words None) courier_theme
      = - (3418 / 5)"
    using width
    by (simp add: Center_center_x_def Let_def SLIDE_16_9_def DEFAULT_MARGIN_LEFT_def
        DEFAULT_MARGIN_RIGHT_def)
  have title: "TitleSlide_center_x monospace_canvas (BodyText ten_words None) courier_theme
      = 576 / 5"
    by (simp add: TitleSlide_center_x_def Let_def font longest SLIDE_16_9_def
        DEFAULT_MARGIN_LEFT_def DEFAULT_MARGIN_RIGHT_def)
  have "render monospace_canvas (Center (BodyText ten_words None)) 50 300 courier_theme
     = Returns (81,
         [SetFont ''Courier'' 24, SetFillColor ''#000000'',
          DrawString (- (3418 / 5)) 300 ''aaaaaaaaa aaaaaaaaa aaaaaaaaa aaaaaaaaa'',
          DrawString (- (3418 / 5)) 274 ''aaaaaaaaa aaaaaaaaa aaaaaaaaa aaaaaaaaa'',
          DrawString (- (3418 / 5)) 248 ''aaaaaaaaa aaaaaaaaa''])"
    by (simp add: center BodyText_render_def Let_def font ten_words_wrapped color_or_def
        monospace_canvas_reads)
  with width longest center title show ?thesis by (simp only: ten_words_wrapped simp_thms)
qed

subsection \<open>The placeholders of \<^verbatim>\<open>Img.render\<close>\<close>

text \<open>
  On a canvas that does not know the font of the theme, \<^verbatim>\<open>render\<close> of an \<^verbatim>\<open>Img\<close>
  whose path does not exist or whose file cannot be loaded raises \<^verbatim>\<open>KeyError\<close>: the
  \<^verbatim>\<open>setFont\<close> of the \<^verbatim>\<open>except\<close> branch is not guarded.
\<close>

lemma img_unknown_font:
  assumes "image_at canvas_obj path = Missing \<or> image_at canvas_obj path = Unreadable message"
    and "\<not> font_registered canvas_obj (theme_get (theme_font th) ''Helvetica'')"
  shows "render canvas_obj (Img path caption) x y th = Raises KeyError"
  using assms by (auto simp: Img_render_def Img_error_def Let_def)




subsection \<open>\<^verbatim>\<open>wrap_text\<close> on a text that fits\<close>

lemma split_on_not_Nil: "split_on sep s \<noteq> []"
  by (induction s) (auto split: list.splits)

lemma split_on_join:
  "hd (split_on sep s) @ concat (map ((#) sep) (tl (split_on sep s))) = s"
proof (induction s)
  case Nil
  then show ?case by simp
next
  case (Cons c cs)
  then show ?case
    using split_on_not_Nil[of sep cs]
    by (cases "split_on sep cs") auto
qed

text \<open>
  While every line tried fits, the loop of \<^verbatim>\<open>wrap_text\<close> only extends the current
  line, word after word.
\<close>

lemma wrap_fold_fits:
  assumes "cur \<noteq> []"
    and "\<And>p. prefix p (cur @ concat (map ((#) CHR '' '') ws))
           \<Longrightarrow> stringWidth canvas_obj p font_name font_size \<le> max_width"
  shows "foldl (wrap_word canvas_obj font_name font_size max_width) (ls, cur) ws
           = (ls, cur @ concat (map ((#) CHR '' '') ws))"
  using assms
proof (induction ws arbitrary: cur)
  case Nil
  then show ?case by simp
next
  case (Cons w ws)
  have "prefix (cur @ CHR '' '' # w) (cur @ concat (map ((#) CHR '' '') (w # ws)))"
    by simp
  then have fit: "stringWidth canvas_obj (cur @ CHR '' '' # w) font_name font_size \<le> max_width"
    using Cons.prems(2) by blast
  have step: "wrap_word canvas_obj font_name font_size max_width (ls, cur) w
                = (ls, cur @ CHR '' '' # w)"
    using Cons.prems(1) fit by (simp add: wrap_word_def)
  have "foldl (wrap_word canvas_obj font_name font_size max_width) (ls, cur @ CHR '' '' # w) ws
          = (ls, (cur @ CHR '' '' # w) @ concat (map ((#) CHR '' '') ws))"
  proof (rule Cons.IH)
    show "cur @ CHR '' '' # w \<noteq> []" by simp
  next
    fix p
    assume "prefix p ((cur @ CHR '' '' # w) @ concat (map ((#) CHR '' '') ws))"
    then show "stringWidth canvas_obj p font_name font_size \<le> max_width"
      using Cons.prems(2) by simp
  qed
  with step show ?case by simp
qed

text \<open>
  C2 (as amended). Let the measured width of a string never be smaller than that of
  one of its prefixes. For every text that is not empty, does not begin with a space,
  and whose measured width is at most \<^verbatim>\<open>max_width\<close>, \<^verbatim>\<open>wrap_text\<close> returns exactly
  one line, the text itself.
\<close>

theorem wrap_text_fits:
  assumes mono: "\<And>p q. stringWidth canvas_obj p font_name font_size
                         \<le> stringWidth canvas_obj (p @ q) font_name font_size"
    and fits: "stringWidth canvas_obj text font_name font_size \<le> max_width"
    and nonempty: "text \<noteq> []"
    and first: "hd text \<noteq> CHR '' ''"
  shows "wrap_text canvas_obj text font_name font_size max_width = [text]"
proof -
  obtain w ws where sp: "split_on CHR '' '' text = w # ws"
    using split_on_not_Nil[of "CHR '' ''" "text"] by (cases "split_on CHR '' '' text") auto
  have joined: "w @ concat (map ((#) CHR '' '') ws) = text"
    using split_on_join[of "CHR '' ''" "text"] sp by simp
  have w: "w \<noteq> []"
  proof
    assume "w = []"
    with joined nonempty first show False by (cases ws) auto
  qed
  have pre: "stringWidth canvas_obj p font_name font_size \<le> max_width" if "prefix p text" for p
  proof -
    from that obtain q where "text = p @ q" by (auto simp: prefix_def)
    with mono[of p q] fits show ?thesis by simp
  qed
  have "prefix w text" using joined by (metis prefixI)
  then have first_step: "wrap_word canvas_obj font_name font_size max_width ([], []) w = ([], w)"
    using pre by (simp add: wrap_word_def)
  have "foldl (wrap_word canvas_obj font_name font_size max_width) ([], w) ws
          = ([], w @ concat (map ((#) CHR '' '') ws))"
    using w pre joined by (intro wrap_fold_fits) auto
  then show ?thesis
    using first_step joined nonempty by (simp add: wrap_text_def sp)
qed

theorem wrap_text_fits_witness:
  "(\<forall>p q. stringWidth monospace_canvas p ''Courier'' 24
             \<le> stringWidth monospace_canvas (p @ q) ''Courier'' 24) \<and>
   stringWidth monospace_canvas ''Hello wide world'' ''Courier'' 24 \<le> 692 \<and>
   wrap_text monospace_canvas ''Hello wide world'' ''Courier'' 24 692 = [''Hello wide world'']"
  using wrap_text_fits [of monospace_canvas "''Courier''" 24 "''Hello wide world''" 692]
  by (simp add: monospace_canvas_def)

text \<open>
  C2 as stated fails: the empty text fits and gives no line at all, and the text
  \<^verbatim>\<open>" a"\<close> fits and gives the line \<^verbatim>\<open>"a"\<close>, without its leading space.
\<close>

theorem wrap_text_empty_and_leading_space:
  "stringWidth monospace_canvas [] ''Courier'' 24 \<le> 692 \<and>
   wrap_text monospace_canvas [] ''Courier'' 24 692 = [] \<and>
   stringWidth monospace_canvas '' a'' ''Courier'' 24 \<le> 692 \<and>
   wrap_text monospace_canvas '' a'' ''Courier'' 24 692 = [''a'']"
  by (simp add: wrap_text_def wrap_word_def monospace_canvas_def)

subsection \<open>\<^verbatim>\<open>CombinedElement.render\<close>: the sum of the children\<close>

lemma after_ops_Returns:
  "after_ops ops r = Returns (h, ops') \<longleftrightarrow>
   (\<exists>ops''. r = Returns (h, ops'') \<and> ops' = ops @ ops'')"
  by (cases r) (auto simp: after_ops_def)

text \<open>
  The loop of \<^verbatim>\<open>CombinedElement.render\<close> returns exactly when every child returns
  at the position left by the children before it.
\<close>

lemma render_stack_char:
  "render_stack canvas_obj es x y th tot = Returns (h, ops) \<longleftrightarrow>
   (\<exists>rs. length rs = length es \<and>
         (\<forall>i<length es. render canvas_obj (es ! i) x (y - sum_list (map fst (take i rs))) th
                           = Returns (rs ! i)) \<and>
         h = tot + sum_list (map fst rs) \<and> ops = concat (map snd rs))"
proof (induction es arbitrary: y tot h ops)
  case Nil
  then show ?case by auto
next
  case (Cons e es)
  show ?case
  proof
    assume run: "render_stack canvas_obj (e # es) x y th tot = Returns (h, ops)"
    then obtain h1 o1 where r1: "render canvas_obj e x y th = Returns (h1, o1)"
      by (cases "render canvas_obj e x y th") auto
    with run obtain ops' where
      rest: "render_stack canvas_obj es x (y - h1) th (tot + h1) = Returns (h, ops')"
      and ops: "ops = o1 @ ops'"
      by (auto simp: after_ops_Returns)
    from Cons.IH[THEN iffD1, OF rest] obtain rs where rs:
      "length rs = length es"
      "\<forall>i<length es. render canvas_obj (es ! i) x (y - h1 - sum_list (map fst (take i rs))) th
                        = Returns (rs ! i)"
      "h = tot + h1 + sum_list (map fst rs)" "ops' = concat (map snd rs)"
      by blast
    have "\<forall>i<length (e # es).
            render canvas_obj ((e # es) ! i) x (y - sum_list (map fst (take i ((h1, o1) # rs)))) th
              = Returns (((h1, o1) # rs) ! i)"
      using r1 rs(2) by (simp add: All_less_Suc2 diff_diff_eq)
    then show "\<exists>rs. length rs = length (e # es) \<and>
         (\<forall>i<length (e # es). render canvas_obj ((e # es) ! i) x (y - sum_list (map fst (take i rs))) th
                           = Returns (rs ! i)) \<and>
         h = tot + sum_list (map fst rs) \<and> ops = concat (map snd rs)"
      using rs ops by (intro exI[of _ "(h1, o1) # rs"]) simp
  next
    assume "\<exists>rs. length rs = length (e # es) \<and>
         (\<forall>i<length (e # es). render canvas_obj ((e # es) ! i) x (y - sum_list (map fst (take i rs))) th
                           = Returns (rs ! i)) \<and>
         h = tot + sum_list (map fst rs) \<and> ops = concat (map snd rs)"
    then obtain rs where rs: "length rs = length (e # es)"
        "\<forall>i<length (e # es). render canvas_obj ((e # es) ! i) x (y - sum_list (map fst (take i rs))) th
                           = Returns (rs ! i)"
        "h = tot + sum_list (map fst rs)" "ops = concat (map snd rs)"
      by blast
    from rs(1) obtain h1 o1 rs' where split: "rs = (h1, o1) # rs'" "length rs' = length es"
      by (cases rs) auto
    from rs(2) split have r1: "render canvas_obj e x y th = Returns (h1, o1)"
      and rest: "\<forall>i<length es. render canvas_obj (es ! i) x (y - h1 - sum_list (map fst (take i rs'))) th
                           = Returns (rs' ! i)"
      by (simp_all add: All_less_Suc2 diff_diff_eq)
    have "render_stack canvas_obj es x (y - h1) th (tot + h1) = Returns (h, concat (map snd rs'))"
      using split rest rs(3) by (intro Cons.IH[THEN iffD2] exI[of _ rs']) simp
    then show "render_stack canvas_obj (e # es) x y th tot = Returns (h, ops)"
      using r1 rs(4) split by (simp add: after_ops_def)
  qed
qed

text \<open>
  C8. For every \<^verbatim>\<open>CombinedElement\<close>, starting position and theme: \<^verbatim>\<open>render\<close>
  returns a height exactly when each child, taken in list order, returns one at the same
  \<open>x\<close> and at the \<open>y\<close> that is the start \<open>y\<close> less the heights of the children before
  it; the height returned is the sum of the heights of the children, and the drawing
  calls are those of the children, in list order.
\<close>

theorem combined_render_sum:
  "render canvas_obj (CombinedElement es) x y th = Returns (h, ops) \<longleftrightarrow>
   (\<exists>rs. length rs = length es \<and>
         (\<forall>i<length es. render canvas_obj (es ! i) x (y - sum_list (map fst (take i rs))) th
                           = Returns (rs ! i)) \<and>
         h = sum_list (map fst rs) \<and> ops = concat (map snd rs))"
  by (simp add: render_stack_char)

theorem combined_render_sum_witness:
  "render monospace_canvas (CombinedElement [Img ''no.png'' [], Img ''no.png'' ''a caption''])
     50 300 default_theme
   = Returns (30 + 60,
       [SetFont ''Helvetica'' 24, SetFillColor ''#FF0000'',
        DrawString 50 300 ''[Image not found: no.png]''] @
       [SetFont ''Helvetica'' 24, SetFillColor ''#FF0000'',
        DrawString 50 270 ''[Image not found: no.png]'', DrawString 50 240 ''a caption''])"
proof -
  let ?es = "[Img ''no.png'' [], Img ''no.png'' ''a caption'']"
  let ?ops1 = "[SetFont ''Helvetica'' 24, SetFillColor ''#FF0000'',
                DrawString 50 300 ''[Image not found: no.png]'']"
  let ?ops2 = "[SetFont ''Helvetica'' 24, SetFillColor ''#FF0000'',
                DrawString 50 270 ''[Image not found: no.png]'', DrawString 50 240 ''a caption'']"
  let ?rs = "[(30 :: real, ?ops1), (60, ?ops2)]"
  have first: "render monospace_canvas (Img ''no.png'' []) 50 300 default_theme
                 = Returns (30, ?ops1)"
    by (simp add: Img_render_def monospace_canvas_def standard_fonts_def default_theme_def
        theme_get_def)
  have second: "render monospace_canvas (Img ''no.png'' ''a caption'') 50 270 default_theme
                  = Returns (60, ?ops2)"
    by (simp add: Img_render_def monospace_canvas_def standard_fonts_def default_theme_def
        theme_get_def)
  have "\<exists>rs. length rs = length ?es \<and>
         (\<forall>i<length ?es.
             render monospace_canvas (?es ! i) 50
               (300 - sum_list (map fst (take i rs))) default_theme = Returns (rs ! i)) \<and>
         (30 + 60 :: real) = sum_list (map fst rs) \<and> ?ops1 @ ?ops2 = concat (map snd rs)"
    using first second by (intro exI[of _ ?rs]) (simp add: All_less_Suc2)
  then show ?thesis
    using combined_render_sum [of monospace_canvas ?es 50 300 default_theme "30 + 60" "?ops1 @ ?ops2"]
    by blast
qed

subsection \<open>\<^verbatim>\<open>GridLayout.render\<close>: the first columns, and their maximum\<close>

lemma foldl_max_Max: "foldl (\<lambda>a b. max a b) (m :: real) xs = Max (insert m (set xs))"
proof (induction xs arbitrary: m)
  case Nil
  then show ?case by simp
next
  case (Cons x xs)
  have "Max (insert (max m x) (set xs)) = Max (insert m (insert x (set xs)))"
    by (cases "set xs = {}") (simp_all add: max.assoc max.commute max.left_commute)
  with Cons show ?case by simp
qed

text \<open>
  The loop of \<^verbatim>\<open>GridLayout.render\<close> from index \<open>i\<close> on: it renders the children
  whose index is below the column count and keeps the largest height seen.
\<close>

lemma render_columns_char:
  "render_columns canvas_obj es i columns column_width y th m = Returns (h, ops) \<longleftrightarrow>
   (\<exists>rs. length rs = min (nat (columns - int i)) (length es) \<and>
         (\<forall>j<length rs. render canvas_obj (es ! j) (50 + real (i + j) * column_width) y th
                           = Returns (rs ! j)) \<and>
         h = Max (insert m (set (map fst rs))) \<and> ops = concat (map snd rs))"
proof (induction es arbitrary: i m h ops)
  case Nil
  then show ?case by auto
next
  case (Cons e es)
  show ?case
  proof (cases "columns \<le> int i")
    case True
    then show ?thesis by auto
  next
    case False
    then have n: "nat (columns - int i) = Suc (nat (columns - int (Suc i)))"
      by simp
    show ?thesis
    proof
      assume run: "render_columns canvas_obj (e # es) i columns column_width y th m = Returns (h, ops)"
      with False obtain h1 o1 where
        r1: "render canvas_obj e (50 + real i * column_width) y th = Returns (h1, o1)"
        by (cases "render canvas_obj e (50 + real i * column_width) y th") (auto simp: Let_def)
      with run False obtain ops' where
        rest: "render_columns canvas_obj es (Suc i) columns column_width y th (max m h1)
                 = Returns (h, ops')"
        and ops: "ops = o1 @ ops'"
        by (auto simp: after_ops_Returns Let_def)
      from Cons.IH[THEN iffD1, OF rest] obtain rs where rs:
        "length rs = min (nat (columns - int (Suc i))) (length es)"
        "\<forall>j<length rs. render canvas_obj (es ! j) (50 + real (Suc i + j) * column_width) y th
                          = Returns (rs ! j)"
        "h = Max (insert (max m h1) (set (map fst rs)))" "ops' = concat (map snd rs)"
        by blast
      have "Max (insert (max m h1) (set (map fst rs))) = Max (insert m (set (map fst ((h1, o1) # rs))))"
        by (cases "rs = []") (simp_all add: max.assoc max.commute max.left_commute)
      moreover have "\<forall>j<length ((h1, o1) # rs).
              render canvas_obj ((e # es) ! j) (50 + real (i + j) * column_width) y th
                = Returns (((h1, o1) # rs) ! j)"
        using r1 rs(2) by (simp add: All_less_Suc2 add.assoc add.left_commute)
      ultimately show "\<exists>rs. length rs = min (nat (columns - int i)) (length (e # es)) \<and>
         (\<forall>j<length rs. render canvas_obj ((e # es) ! j) (50 + real (i + j) * column_width) y th
                           = Returns (rs ! j)) \<and>
         h = Max (insert m (set (map fst rs))) \<and> ops = concat (map snd rs)"
        using rs(1,3,4) ops n by (intro exI[of _ "(h1, o1) # rs"]) simp
    next
      assume "\<exists>rs. length rs = min (nat (columns - int i)) (length (e # es)) \<and>
         (\<forall>j<length rs. render canvas_obj ((e # es) ! j) (50 + real (i + j) * column_width) y th
                           = Returns (rs ! j)) \<and>
         h = Max (insert m (set (map fst rs))) \<and> ops = concat (map snd rs)"
      then obtain rs where rs: "length rs = min (nat (columns - int i)) (length (e # es))"
         "\<forall>j<length rs. render canvas_obj ((e # es) ! j) (50 + real (i + j) * column_width) y th
                           = Returns (rs ! j)"
         "h = Max (insert m (set (map fst rs)))" "ops = concat (map snd rs)"
        by blast
      from rs(1) n obtain h1 o1 rs' where split: "rs = (h1, o1) # rs'"
          "length rs' = min (nat (columns - int (Suc i))) (length es)"
        by (cases rs) auto
      from rs(2) split have r1: "render canvas_obj e (50 + real i * column_width) y th = Returns (h1, o1)"
        and rest: "\<forall>j<length rs'. render canvas_obj (es ! j) (50 + real (Suc i + j) * column_width) y th
                             = Returns (rs' ! j)"
        by (simp_all add: All_less_Suc2 add.assoc add.left_commute)
      have "Max (insert (max m h1) (set (map fst rs'))) = Max (insert m (set (map fst rs)))"
        unfolding split by (cases "rs' = []") (simp_all add: max.assoc max.commute max.left_commute)
      then have "render_columns canvas_obj es (Suc i) columns column_width y th (max m h1)
                   = Returns (h, concat (map snd rs'))"
        using split(2) rest rs(3) by (intro Cons.IH[THEN iffD2] exI[of _ rs']) simp
      then show "render_columns canvas_obj (e # es) i columns column_width y th m = Returns (h, ops)"
        using r1 rs(4) split False by (simp add: after_ops_def Let_def)
    qed
  qed
qed

text \<open>
  C7 (as amended). For every \<^verbatim>\<open>GridLayout\<close> with a column count \<open>n\<close> of at least 1
  and any number of children: \<^verbatim>\<open>render\<close> returns exactly when each of the first \<open>n\<close>
  children returns at the left edge of its column and at the same \<open>y\<close>; the drawing
  calls are those of the first \<open>n\<close> children and of no other child; the height
  returned is the largest of 0 and the heights of these children, not their sum. The
  estimator takes the largest of 0 and the estimates of the first \<open>n\<close> children.
\<close>

theorem grid_render_max:
  assumes "1 \<le> columns"
  shows "(render canvas_obj (GridLayout es columns) x y th = Returns (h, ops) \<longleftrightarrow>
          (\<exists>rs. length rs = min (nat columns) (length es) \<and>
             (\<forall>j<length rs.
                render canvas_obj (es ! j)
                  (50 + real j * ((fst SLIDE_16_9 - 100) / real_of_int columns)) y th
                  = Returns (rs ! j)) \<and>
             h = Max (insert 0 (set (map fst rs))) \<and> ops = concat (map snd rs))) \<and>
         estimate_element_height (GridLayout es columns) th
           = Max (insert 0 (set (map (\<lambda>e. estimate_element_height e th) (take (nat columns) es))))"
  using assms by (simp add: render_columns_char foldl_max_Max slice_to_def Let_def)

theorem grid_render_max_witness:
  "(1::int) \<le> 2 \<and>
   render monospace_canvas
     (GridLayout [Img ''no.png'' [], Img ''no.png'' ''a caption'', Img ''no.png'' ''a caption''] 2)
     50 300 default_theme
   = Returns (60,
       [SetFont ''Helvetica'' 24, SetFillColor ''#FF0000'',
        DrawString 50 300 ''[Image not found: no.png]''] @
       [SetFont ''Helvetica'' 24, SetFillColor ''#FF0000'',
        DrawString 396 300 ''[Image not found: no.png]'', DrawString 396 270 ''a caption'']) \<and>
   estimate_element_height
     (GridLayout [Img ''no.png'' [], Img ''no.png'' ''a caption'', Img ''no.png'' ''a caption''] 2)
     default_theme = 350"
proof -
  let ?es = "[Img ''no.png'' [], Img ''no.png'' ''a caption'', Img ''no.png'' ''a caption'']"
  let ?ops1 = "[SetFont ''Helvetica'' 24, SetFillColor ''#FF0000'',
                DrawString 50 300 ''[Image not found: no.png]'']"
  let ?ops2 = "[SetFont ''Helvetica'' 24, SetFillColor ''#FF0000'',
                DrawString 396 300 ''[Image not found: no.png]'', DrawString 396 270 ''a caption'']"
  let ?rs = "[(30 :: real, ?ops1), (60, ?ops2)]"
  have first: "render monospace_canvas (Img ''no.png'' []) 50 300 default_theme
                 = Returns (30, ?ops1)"
    by (simp add: Img_render_def monospace_canvas_def standard_fonts_def default_theme_def
        theme_get_def)
  have second: "render monospace_canvas (Img ''no.png'' ''a caption'') 396 300 default_theme
                  = Returns (60, ?ops2)"
    by (simp add: Img_render_def monospace_canvas_def standard_fonts_def default_theme_def
        theme_get_def)
  have "\<exists>rs. length rs = min (nat 2) (length ?es) \<and>
          (\<forall>j<length rs.
              render monospace_canvas (?es ! j)
                (50 + real j * ((fst SLIDE_16_9 - 100) / real_of_int 2)) 300 default_theme
                = Returns (rs ! j)) \<and>
          (60 :: real) = Max (insert 0 (set (map fst rs))) \<and> ?ops1 @ ?ops2 = concat (map snd rs)"
    using first second by (intro exI[of _ ?rs]) (simp add: All_less_Suc2 SLIDE_16_9_def)
  then show ?thesis
    using grid_render_max [of 2 monospace_canvas ?es 50 300 default_theme 60 "?ops1 @ ?ops2"]
    by simp
qed

text \<open>
  C7 as stated fails. With a column count of 0, \<^verbatim>\<open>render\<close> divides by zero and
  returns nothing. With a negative header font size the only child of a grid returns
  the height -990 and the grid returns 0, which is not the maximum of the heights of
  the rendered children.
\<close>

theorem grid_zero_columns_and_negative_height:
  "render monospace_canvas (GridLayout [Img ''no.png'' []] 0) 50 300 default_theme
     = Raises ZeroDivisionError \<and>
   render monospace_canvas (Head1 ''x'' None) 50 300
     (courier_theme\<lparr>theme_header_font_size := Some (- 1000)\<rparr>)
     = Returns (- 990, [SetFont ''Courier-Bold'' (- 1000), SetFillColor ''#FF5733'',
                        DrawString 50 300 ''x'']) \<and>
   render monospace_canvas (GridLayout [Head1 ''x'' None] 1) 50 300
     (courier_theme\<lparr>theme_header_font_size := Some (- 1000)\<rparr>)
     = Returns (0, [SetFont ''Courier-Bold'' (- 1000), SetFillColor ''#FF5733'',
                    DrawString 50 300 ''x''])"
  by (simp add: Head1_render_def wrap_text_def wrap_word_def monospace_canvas_def
      standard_fonts_def courier_theme_def default_theme_def
      theme_get_def color_or_def get_available_width_def SLIDE_16_9_def DEFAULT_MARGIN_LEFT_def
      DEFAULT_MARGIN_RIGHT_def after_ops_def Let_def)

subsection \<open>An oversized element is paginated alone\<close>

text \<open>With font sizes that are not negative, no estimate is negative.\<close>

lemma foldl_max_ge: "(m :: real) \<le> foldl (\<lambda>a b. max a b) m xs"
proof (induction xs arbitrary: m)
  case Nil
  then show ?case by simp
next
  case (Cons x xs)
  have "m \<le> max m x" by simp
  also have "\<dots> \<le> foldl (\<lambda>a b. max a b) (max m x) xs" by (rule Cons.IH)
  finally show ?case by simp
qed

lemma foldl_add_nonneg:
  "(0 :: real) \<le> t \<Longrightarrow> \<forall>x\<in>set xs. 0 \<le> x \<Longrightarrow> 0 \<le> foldl (\<lambda>a b. a + b) t xs"
  by (induction xs arbitrary: t) auto

lemma estimated_lines_pos: "0 < estimated_lines s fs mw"
  by (simp add: estimated_lines_def)

lemma estimate_nonneg:
  assumes "0 \<le> theme_get (theme_font_size th) 24"
    and "0 \<le> theme_get (theme_header_font_size th) 48"
  shows "0 \<le> estimate_element_height e th"
  using assms
proof (induction e th rule: estimate_element_height.induct)
  case (11 es columns th)
  show ?case using foldl_max_ge[of 0] by simp
next
  case (13 es th)
  then show ?case by (auto intro!: foldl_add_nonneg)
qed (simp_all add: Let_def less_imp_le[OF estimated_lines_pos] double_nonneg)

text \<open>
  While the estimates are not negative, \<^verbatim>\<open>current_y\<close> stays at or below its start, and
  the closed slides are only added to.
\<close>

lemma overflow_fold_y:
  assumes "foldl (overflow_step th) (sl, cur, y) es = (sl', cur', y')"
    and "\<forall>e\<in>set es. 0 \<le> estimate_element_height e th"
    and "y \<le> snd SLIDE_16_9 - DEFAULT_MARGIN_TOP"
  shows "y' \<le> snd SLIDE_16_9 - DEFAULT_MARGIN_TOP"
  using assms
proof (induction es arbitrary: sl cur y)
  case Nil
  then show ?case by simp
next
  case (Cons e es)
  obtain sl1 cur1 y1 where st: "overflow_step th (sl, cur, y) e = (sl1, cur1, y1)"
    by (cases "overflow_step th (sl, cur, y) e") auto
  with Cons.prems(2,3) have "y1 \<le> snd SLIDE_16_9 - DEFAULT_MARGIN_TOP"
    by (auto simp: overflow_step_def Let_def split: if_splits)
  moreover from Cons.prems(1) st
  have "foldl (overflow_step th) (sl1, cur1, y1) es = (sl', cur', y')" by simp
  ultimately show ?case using Cons.IH Cons.prems(2) by auto
qed

lemma overflow_fold_extends:
  "foldl (overflow_step th) (sl, cur, y) es = (sl', cur', y') \<Longrightarrow> \<exists>more. sl' = sl @ more"
proof (induction es arbitrary: sl cur y)
  case Nil
  then show ?case by simp
next
  case (Cons e es)
  obtain sl1 cur1 y1 where st: "overflow_step th (sl, cur, y) e = (sl1, cur1, y1)"
    by (cases "overflow_step th (sl, cur, y) e") auto
  then have "\<exists>m. sl1 = sl @ m"
    by (auto simp: overflow_step_def Let_def split: if_splits)
  moreover from Cons.prems st
  have "foldl (overflow_step th) (sl1, cur1, y1) es = (sl', cur', y')" by simp
  from Cons.IH[OF this] have "\<exists>m. sl' = sl1 @ m" .
  ultimately show ?case by auto
qed

text \<open>
  After an oversized element the buffer holds it alone and \<^verbatim>\<open>current_y\<close> is below the
  bottom margin: the next element, if there is one, closes that slide.
\<close>

lemma overflow_after_big:
  assumes run: "foldl (overflow_step th) (sl, [e], y) post = (sl', cur', y')"
    and low: "y < DEFAULT_MARGIN_BOTTOM + 10"
    and nonneg: "\<forall>p\<in>set post. 0 \<le> estimate_element_height p th"
  shows "\<exists>after. (if cur' \<noteq> [] then sl' @ [Slide cur'] else sl') = sl @ Slide [e] # after \<and>
                  concat (map elements after) = post"
proof (cases post)
  case Nil
  with run show ?thesis by auto
next
  case (Cons p ps)
  from nonneg Cons have "0 \<le> estimate_element_height p th" by simp
  with low have st: "overflow_step th (sl, [e], y) p =
        (sl @ [Slide [e]], [p],
         snd SLIDE_16_9 - DEFAULT_MARGIN_TOP - estimate_element_height p th - 10)"
    by (simp add: overflow_step_def Let_def)
  with run Cons have rest:
    "foldl (overflow_step th)
       (sl @ [Slide [e]], [p],
        snd SLIDE_16_9 - DEFAULT_MARGIN_TOP - estimate_element_height p th - 10) ps
     = (sl', cur', y')"
    by simp
  from overflow_fold_extends[OF rest] obtain more where more: "sl' = (sl @ [Slide [e]]) @ more"
    by blast
  from overflow_fold[OF rest] have "concat (map elements sl') @ cur' =
       concat (map elements (sl @ [Slide [e]])) @ [p] @ ps" and ne: "cur' \<noteq> []"
    by auto
  with more have "concat (map elements more) @ cur' = p # ps" by simp
  then have "concat (map elements (more @ [Slide cur'])) = post" using Cons by simp
  then show ?thesis using more ne by (intro exI[of _ "more @ [Slide cur']"]) simp
qed

text \<open>
  C9 (as amended). Let the font sizes of the theme be non-negative. In every element
  sequence, an element whose estimated height exceeds the page height is placed, whole,
  on a slide of its own: the slides before it hold the elements that precede it and
  the slides after it those that follow it.
\<close>

theorem oversized_element_alone:
  assumes sizes: "0 \<le> theme_get (theme_font_size th) 24"
      "0 \<le> theme_get (theme_header_font_size th) 48"
    and big: "snd SLIDE_16_9 < estimate_element_height e th"
  shows "\<exists>before after.
           render_with_overflow_detection (Slide (pre @ e # post)) th = before @ Slide [e] # after \<and>
           concat (map elements before) = pre \<and> concat (map elements after) = post"
proof -
  let ?top = "snd SLIDE_16_9 - DEFAULT_MARGIN_TOP"
  have nonneg: "0 \<le> estimate_element_height p th" for p
    using sizes by (rule estimate_nonneg)
  obtain s1 c1 y1 where f1: "foldl (overflow_step th) ([], [], ?top) pre = (s1, c1, y1)"
    by (metis prod_cases3)
  have y1: "y1 \<le> ?top"
    using overflow_fold_y[OF f1] nonneg by simp
  have pre: "concat (map elements s1) @ c1 = pre"
    using overflow_fold[OF f1] by simp
  define B where "B = (if c1 \<noteq> [] then s1 @ [Slide c1] else s1)"
  have B: "concat (map elements B) = pre"
    using pre by (auto simp: B_def)
  have "\<exists>y2. overflow_step th (s1, c1, y1) e = (B, [e], y2) \<and> y2 < DEFAULT_MARGIN_BOTTOM + 10"
    using y1 big
    by (auto simp: overflow_step_def Let_def B_def SLIDE_16_9_def DEFAULT_MARGIN_TOP_def
        DEFAULT_MARGIN_BOTTOM_def)
  then obtain y2 where st: "overflow_step th (s1, c1, y1) e = (B, [e], y2)"
    and y2: "y2 < DEFAULT_MARGIN_BOTTOM + 10"
    by blast
  obtain s3 c3 y3 where f3: "foldl (overflow_step th) (B, [e], y2) post = (s3, c3, y3)"
    by (metis prod_cases3)
  from overflow_after_big[OF f3 y2] nonneg obtain after where
    after: "(if c3 \<noteq> [] then s3 @ [Slide c3] else s3) = B @ Slide [e] # after"
      "concat (map elements after) = post"
    by blast
  have "foldl (overflow_step th) ([], [], ?top) (pre @ e # post) = (s3, c3, y3)"
    using f1 st f3 by simp
  then have "render_with_overflow_detection (Slide (pre @ e # post)) th = B @ Slide [e] # after"
    using after(1) by (simp add: render_with_overflow_detection_def Let_def)
  with B after(2) show ?thesis by blast
qed

theorem oversized_element_alone_witness:
  "0 \<le> theme_get (theme_font_size default_theme) 24 \<and>
   0 \<le> theme_get (theme_header_font_size default_theme) 48 \<and>
   snd SLIDE_16_9
     < estimate_element_height (CombinedElement [Img ''a.png'' [], Img ''b.png'' []]) default_theme \<and>
   (\<exists>before after.
      render_with_overflow_detection
        (Slide ([Head1 ''Title'' None] @ CombinedElement [Img ''a.png'' [], Img ''b.png'' []]
                  # [BodyText ''x'' None])) default_theme
        = before @ Slide [CombinedElement [Img ''a.png'' [], Img ''b.png'' []]] # after \<and>
      concat (map elements before) = [Head1 ''Title'' None] \<and>
      concat (map elements after) = [BodyText ''x'' None])"
  using oversized_element_alone
    [of default_theme "CombinedElement [Img ''a.png'' [], Img ''b.png'' []]"
        "[Head1 ''Title'' None]" "[BodyText ''x'' None]"]
  by (simp add: default_theme_def theme_get_def SLIDE_16_9_def)

text \<open>
  C9 as stated fails. At a body font size of 500 and a header font size of -1000 the
  estimate of \<^verbatim>\<open>BodyText("x")\<close> is 505, more than the page height, the estimate of
  \<^verbatim>\<open>Head1("y")\<close> is -990, and both are put on one slide.
\<close>

theorem oversized_element_shares_slide:
  "snd SLIDE_16_9
     < estimate_element_height (BodyText ''x'' None)
         (default_theme\<lparr>theme_font_size := Some 500, theme_header_font_size := Some (- 1000)\<rparr>) \<and>
   render_with_overflow_detection (Slide [BodyText ''x'' None, Head1 ''y'' None])
     (default_theme\<lparr>theme_font_size := Some 500, theme_header_font_size := Some (- 1000)\<rparr>)
   = [Slide [BodyText ''x'' None, Head1 ''y'' None]]"
  by (simp add: render_with_overflow_detection_def overflow_step_def default_theme_def theme_get_def
      SLIDE_16_9_def DEFAULT_MARGIN_TOP_def DEFAULT_MARGIN_BOTTOM_def estimated_lines_def
      get_available_width_def DEFAULT_MARGIN_LEFT_def DEFAULT_MARGIN_RIGHT_def Let_def
      double_numeral)

subsection \<open>The lines counted by \<^verbatim>\<open>Code.render\<close> and by the estimator\<close>

lemma length_split_on: "length (split_on sep s) = Suc (length (filter (\<lambda>c. c = sep) s))"
proof (induction s)
  case Nil
  then show ?case by simp
next
  case (Cons c cs)
  then show ?case using split_on_not_Nil[of sep cs] by (cases "split_on sep cs") auto
qed

lemma split_on_snoc:
  "split_on sep (s @ [c]) =
     (if c = sep then split_on sep s @ [[]]
      else butlast (split_on sep s) @ [last (split_on sep s) @ [c]])"
proof (induction s)
  case Nil
  then show ?case by simp
next
  case (Cons d s)
  then show ?case using split_on_not_Nil[of sep s]
    by (cases "split_on sep s") (auto split: list.splits)
qed

lemma split_on_rev: "split_on sep (rev s) = rev (map rev (split_on sep s))"
proof (induction s)
  case Nil
  then show ?case by simp
next
  case (Cons c cs)
  then show ?case using split_on_not_Nil[of sep cs]
    by (cases "split_on sep cs") (auto simp: split_on_snoc)
qed

lemma split_on_holds:
  "c \<in> set s \<Longrightarrow> c \<noteq> sep \<Longrightarrow> \<exists>l\<in>set (split_on sep s). c \<in> set l"
proof (induction s)
  case Nil
  then show ?case by simp
next
  case (Cons d s)
  then show ?case using split_on_not_Nil[of sep s]
    by (cases "split_on sep s") (auto split: if_splits)
qed

lemma blank_iff: "blank l \<longleftrightarrow> (\<forall>c\<in>set l. isspace c)"
proof
  assume "blank l"
  then have all: "\<forall>c\<in>set (dropWhile isspace l). isspace c"
    by (simp add: blank_def strip_def rstrip_def lstrip_def)
  have "dropWhile isspace l = []"
  proof (rule ccontr)
    assume ne: "dropWhile isspace l \<noteq> []"
    then have "\<not> isspace (hd (dropWhile isspace l))" by (rule hd_dropWhile)
    moreover have "hd (dropWhile isspace l) \<in> set (dropWhile isspace l)" using ne by simp
    ultimately show False using all by blast
  qed
  then show "\<forall>c\<in>set l. isspace c" by simp
next
  assume "\<forall>c\<in>set l. isspace c"
  then show "blank l"
    by (auto simp: blank_def strip_def rstrip_def lstrip_def dest: set_dropWhileD)
qed

lemma isspace_newline: "isspace (CHR 0x0A)"
  by (simp add: isspace_def)

text \<open>Dropping the blank lines in front drops no more newlines than \<^verbatim>\<open>lstrip\<close> does.\<close>

lemma leading_blank_lines:
  assumes "\<exists>c\<in>set s. \<not> isspace c"
  shows "length (dropWhile blank (split_on (CHR 0x0A) s))
           = Suc (length (filter (\<lambda>c. c = CHR 0x0A) (dropWhile isspace s)))"
  using assms
proof (induction s)
  case Nil
  then show ?case by simp
next
  case (Cons c cs)
  obtain w ws where sp: "split_on (CHR 0x0A) cs = w # ws"
    using split_on_not_Nil[of "CHR 0x0A" cs] by (cases "split_on (CHR 0x0A) cs") auto
  show ?case
  proof (cases "isspace c")
    case False
    then have "c \<noteq> CHR 0x0A" using isspace_newline by auto
    moreover have "\<not> blank (c # w)" using False by (simp add: blank_iff)
    ultimately show ?thesis
      using False length_split_on[of "CHR 0x0A" "c # cs"] sp by simp
  next
    case True
    with Cons.prems have rest: "\<exists>c\<in>set cs. \<not> isspace c" by auto
    note IH = Cons.IH[OF rest]
    show ?thesis
    proof (cases "c = CHR 0x0A")
      case nl: True
      have "blank []" by (simp add: blank_iff)
      with nl True IH show ?thesis by simp
    next
      case other: False
      have "blank (c # w) = blank w" using True by (simp add: blank_iff)
      then have "length (dropWhile blank (split_on (CHR 0x0A) (c # cs)))
                  = length (dropWhile blank (split_on (CHR 0x0A) cs))"
        using other sp by simp
      with True IH show ?thesis by simp
    qed
  qed
qed

lemma trailing_blank_lines:
  assumes "\<exists>c\<in>set s. \<not> isspace c"
  shows "length (dropWhile blank (rev (split_on (CHR 0x0A) s)))
           = Suc (length (filter (\<lambda>c. c = CHR 0x0A) (dropWhile isspace (rev s))))"
proof -
  have "split_on (CHR 0x0A) s = rev (map rev (split_on (CHR 0x0A) (rev s)))"
    using split_on_rev[of "CHR 0x0A" "rev s"] by simp
  then have "rev (split_on (CHR 0x0A) s) = map rev (split_on (CHR 0x0A) (rev s))"
    by simp
  moreover have "blank \<circ> rev = blank" by (auto simp: blank_iff fun_eq_iff)
  ultimately have "length (dropWhile blank (rev (split_on (CHR 0x0A) s)))
      = length (dropWhile blank (split_on (CHR 0x0A) (rev s)))"
    by (simp add: dropWhile_map)
  also have "\<dots> = Suc (length (filter (\<lambda>c. c = CHR 0x0A) (dropWhile isspace (rev s))))"
    using assms by (intro leading_blank_lines) simp
  finally show ?thesis .
qed

text \<open>What is dropped at both ends is what is dropped at the front and what is dropped at the back.\<close>

lemma drop_both_ends:
  assumes "\<exists>x\<in>set xs. \<not> P x"
  shows "length (filter R (dropWhile P (rev (dropWhile P xs)))) + length (filter R xs)
           = length (filter R (dropWhile P xs)) + length (filter R (dropWhile P (rev xs)))"
proof -
  let ?a = "takeWhile P xs" and ?b = "dropWhile P xs"
  have xs: "xs = ?a @ ?b" by simp
  from assms obtain x where "x \<in> set xs" "\<not> P x" by blast
  then have "x \<in> set ?b" using xs set_takeWhileD[of x P xs]
    by (metis Un_iff set_append)
  then have "dropWhile P (rev ?b @ rev ?a) = dropWhile P (rev ?b) @ rev ?a"
    using \<open>\<not> P x\<close> by (intro dropWhile_append1[of x]) simp_all
  then have "dropWhile P (rev xs) = dropWhile P (rev ?b) @ rev ?a"
    by (metis rev_append xs)
  then have "length (filter R (dropWhile P (rev xs)))
               = length (filter R (dropWhile P (rev ?b))) + length (filter R ?a)"
    by (simp add: rev_filter[symmetric])
  moreover have "length (filter R xs) = length (filter R ?a) + length (filter R ?b)"
    by (metis filter_append length_append xs)
  ultimately show ?thesis by simp
qed

text \<open>
  For a code with a character that is not white space, \<^verbatim>\<open>Code.render\<close> and the
  estimator count the same number of lines.
\<close>

lemma Code_lines_count:
  assumes "\<exists>c\<in>set code. \<not> isspace c"
  shows "length (Code_lines canvas_obj code language) = length (estimate_code_lines code)"
proof -
  let ?L = "split_on (CHR 0x0A) code"
  let ?N = "\<lambda>s. length (filter (\<lambda>c. c = CHR 0x0A) s)"
  from assms obtain c where c: "c \<in> set code" "\<not> isspace c" by blast
  then have "c \<noteq> CHR 0x0A" using isspace_newline by auto
  with c obtain l where "l \<in> set ?L" "c \<in> set l" using split_on_holds by blast
  with c have nonblank: "\<exists>l\<in>set ?L. \<not> blank l" by (auto simp: blank_iff)
  have "length (filter (\<lambda>l. True) (dropWhile blank (rev (dropWhile blank ?L))))
          + length (filter (\<lambda>l. True) ?L)
        = length (filter (\<lambda>l. True) (dropWhile blank ?L))
          + length (filter (\<lambda>l. True) (dropWhile blank (rev ?L)))"
    using nonblank by (rule drop_both_ends)
  then have lines: "length (dropWhile blank (rev (dropWhile blank ?L))) + Suc (?N code)
        = Suc (?N (dropWhile isspace code)) + Suc (?N (dropWhile isspace (rev code)))"
    using leading_blank_lines[OF assms] trailing_blank_lines[OF assms] length_split_on[of "CHR 0x0A" code]
    by simp
  have chars: "?N (dropWhile isspace (rev (dropWhile isspace code))) + ?N code
        = ?N (dropWhile isspace code) + ?N (dropWhile isspace (rev code))"
    using assms by (rule drop_both_ends)
  have "length (Code_lines canvas_obj code language)
          = length (dropWhile blank (rev (dropWhile blank ?L)))"
    by (simp add: Code_lines_def apply_basic_highlighting_def Let_def split: option.split)
  moreover have "length (estimate_code_lines code)
          = Suc (?N (dropWhile isspace (rev (dropWhile isspace code))))"
    by (simp add: estimate_code_lines_def length_split_on strip_def rstrip_def lstrip_def
        rev_filter[symmetric])
  ultimately show ?thesis using lines chars by simp
qed

subsection \<open>\<^verbatim>\<open>_wrap_code_line\<close> returns on a line with progress\<close>

lemma fill_line_index:
  "fill_line canvas_obj font_name font_size max_width cur rc k = (cur', Some i) \<Longrightarrow> k \<le> i"
proof (induction rc arbitrary: cur k)
  case Nil
  then show ?case by simp
next
  case (Cons c cs)
  then show ?case by (auto simp: Let_def split: if_splits dest: Suc_leD)
qed

lemma fill_line_first_fits:
  assumes "fill_line canvas_obj font_name font_size max_width cur (c # cs) 0 = (cur', Some i)"
    and "stringWidth canvas_obj (cur @ [c]) font_name font_size \<le> max_width"
  shows "1 \<le> i"
  using assms fill_line_index[of canvas_obj font_name font_size max_width "cur @ [c]" cs 1 cur' i]
  by (simp add: Let_def)

lemma find_break_point_pos: "1 \<le> i \<Longrightarrow> 1 \<le> find_break_point rc i"
  by (simp add: find_break_point_def Let_def split: option.split)

text \<open>
  When the first character behind the indentation fits, the break point is at least 1
  and the rest of the line is shorter: the loop ends.
\<close>

lemma wrap_code_loop_returns:
  assumes "\<forall>char\<in>set remaining_line.
             stringWidth canvas_obj (lw @ [char]) font_name font_size \<le> max_width \<and>
             stringWidth canvas_obj (lw @ ''    '' @ [char]) font_name font_size \<le> max_width"
  shows "\<exists>r. wrap_code_loop canvas_obj font_name font_size max_width lw wrapped_lines remaining_line
               = Some r"
  using assms
proof (induction "length remaining_line" arbitrary: remaining_line wrapped_lines rule: less_induct)
  case less
  let ?indent = "if wrapped_lines \<noteq> [] then lw @ ''    '' else lw"
  let ?rc = "if wrapped_lines \<noteq> [] then lstrip remaining_line
             else drop (length lw) remaining_line"
  let ?filled = "fill_line canvas_obj font_name font_size max_width ?indent ?rc 0"
  have sub: "set ?rc \<subseteq> set remaining_line"
    by (auto simp: lstrip_def dest: set_dropWhileD in_set_dropD)
  have len: "length ?rc \<le> length remaining_line"
    by (simp add: lstrip_def length_dropWhile_le)
  show ?case
  proof (cases "remaining_line = []")
    case True
    then show ?thesis by (subst wrap_code_loop.simps) simp
  next
    case ne: False
    show ?thesis
    proof (cases "snd ?filled")
      case None
      with ne show ?thesis by (subst wrap_code_loop.simps) (simp add: Let_def)
    next
      case (Some i)
      then have filled: "?filled = (fst ?filled, Some i)" by (metis prod.collapse)
      have rc: "?rc \<noteq> []"
      proof
        assume "?rc = []"
        then have "?filled = (?indent, None)" by simp
        with Some show False by simp
      qed
      then obtain c cs where cons: "?rc = c # cs" by (cases ?rc) auto
      then have "c \<in> set ?rc" by simp
      then have "c \<in> set remaining_line" using sub by (rule rev_subsetD)
      then have "stringWidth canvas_obj (?indent @ [c]) font_name font_size \<le> max_width"
        using less.prems by auto
      with filled cons have "1 \<le> i"
        using fill_line_first_fits[of canvas_obj font_name font_size max_width ?indent c cs "fst ?filled" i]
        by simp
      then have bp: "1 \<le> find_break_point ?rc i" by (rule find_break_point_pos)
      let ?next = "lstrip (drop (find_break_point ?rc i) ?rc)"
      have "length ?next \<le> length ?rc - find_break_point ?rc i"
        using length_dropWhile_le[of isspace "drop (find_break_point ?rc i) ?rc"]
        by (simp add: lstrip_def)
      also have "\<dots> < length ?rc" using bp rc by (cases ?rc) auto
      finally have shorter: "length ?next < length remaining_line" using len by simp
      have "set ?next \<subseteq> set remaining_line"
        using sub by (auto simp: lstrip_def dest!: set_dropWhileD in_set_dropD)
      then have "\<forall>char\<in>set ?next.
             stringWidth canvas_obj (lw @ [char]) font_name font_size \<le> max_width \<and>
             stringWidth canvas_obj (lw @ ''    '' @ [char]) font_name font_size \<le> max_width"
        using less.prems by blast
      from less.hyps[OF shorter this]
      obtain r where "wrap_code_loop canvas_obj font_name font_size max_width lw
           (wrapped_lines @ [take (length ?indent + find_break_point ?rc i) (fst ?filled)]) ?next
           = Some r"
        by blast
      with ne Some show ?thesis
        by (subst wrap_code_loop.simps) (simp add: Let_def)
    qed
  qed
qed

lemma wrap_code_line_returns:
  assumes "wrap_progress canvas_obj font_name font_size max_width line"
  shows "\<exists>r. wrap_code_line canvas_obj line font_name font_size max_width = Some r"
  using assms wrap_code_loop_returns[of line canvas_obj
      "takeWhile (\<lambda>char. char = CHR '' '' \<or> char = CHR 0x09) line" font_name font_size max_width "[]"]
  by (simp add: wrap_code_line_def wrap_progress_def Let_def)

lemma draw_code_lines_returns:
  assumes "\<forall>line\<in>set ls. wrap_progress canvas_obj font_name font_size max_width line"
  shows "\<exists>ops. draw_code_lines canvas_obj language x current_y font_name font_size max_width
                  line_height th ls = Some ops"
  using assms
proof (induction ls arbitrary: current_y)
  case Nil
  then show ?case by simp
next
  case (Cons line ls)
  then have rest: "\<exists>ops. draw_code_lines canvas_obj language x y' font_name font_size max_width
                  line_height th ls = Some ops" for y'
    by simp
  from Cons.prems obtain r where
    "wrap_code_line canvas_obj line font_name font_size max_width = Some r"
    using wrap_code_line_returns by fastforce
  then show ?case
    using rest by (auto simp: Let_def split: prod.split)
qed

subsection \<open>The wrapping of the long example line\<close>

lemma wrap_code_loop_last:
  assumes "remaining_line \<noteq> []"
    and "indent = (if wrapped_lines \<noteq> [] then lw @ ''    '' else lw)"
    and "rc = (if wrapped_lines \<noteq> [] then lstrip remaining_line else drop (length lw) remaining_line)"
    and "fill_line canvas_obj font_name font_size max_width indent rc 0 = (cur, None)"
  shows "wrap_code_loop canvas_obj font_name font_size max_width lw wrapped_lines remaining_line
           = Some (wrapped_lines @ [cur])"
  using assms by (subst wrap_code_loop.simps) (simp add: Let_def)

lemma wrap_code_loop_step:
  assumes "remaining_line \<noteq> []"
    and "indent = (if wrapped_lines \<noteq> [] then lw @ ''    '' else lw)"
    and "rc = (if wrapped_lines \<noteq> [] then lstrip remaining_line else drop (length lw) remaining_line)"
    and "fill_line canvas_obj font_name font_size max_width indent rc 0 = (cur, Some i)"
    and "lstrip (drop (find_break_point rc i) rc) = next_line"
    and "next_line \<noteq> []"
  shows "wrap_code_loop canvas_obj font_name font_size max_width lw wrapped_lines remaining_line
           = wrap_code_loop canvas_obj font_name font_size max_width lw
               (wrapped_lines @ [take (length indent + find_break_point rc i) cur]) next_line"
  using assms by (subst wrap_code_loop.simps) (simp add: Let_def)

lemma long_line_first_fill: "fill_line monospace_canvas ''Courier'' (96 / 5) 672 [] long_code_line 0
   = (''aaaaaaaaaaaaaaaaaaaaaaaaaaaaaaaaaaaaaaaaaaaaaaaaaaaaaaaaaa'', Some 58)"
  by (simp add: monospace_canvas_def long_code_line_def)

lemma long_line_break_point: "find_break_point long_code_line 58 = 58"
  by (simp add: find_break_point_def long_code_line_def)

lemma long_line_second_fill: "fill_line monospace_canvas ''Courier'' (96 / 5) 672 ''    '' ''aaaaaaaaaaaa'' 0
   = (''    aaaaaaaaaaaa'', None)"
  by (simp add: monospace_canvas_def)

lemma not_space_a: "\<not> isspace (CHR ''a'')"
  by (simp add: isspace_def)

lemma long_line_rest: "lstrip (drop 58 long_code_line) = ''aaaaaaaaaaaa''"
  by (simp add: lstrip_def long_code_line_def not_space_a)

lemma long_line_second_round: "wrap_code_loop monospace_canvas ''Courier'' (96 / 5) 672 [] [''aaaaaaaaaaaaaaaaaaaaaaaaaaaaaaaaaaaaaaaaaaaaaaaaaaaaaaaaaa''] ''aaaaaaaaaaaa''
            = Some ([''aaaaaaaaaaaaaaaaaaaaaaaaaaaaaaaaaaaaaaaaaaaaaaaaaaaaaaaaaa''] @ [''    aaaaaaaaaaaa''])"
proof (rule wrap_code_loop_last)
  show "''aaaaaaaaaaaa'' \<noteq> []" by simp
  show "''    '' = (if [''aaaaaaaaaaaaaaaaaaaaaaaaaaaaaaaaaaaaaaaaaaaaaaaaaaaaaaaaaa''] \<noteq> [] then [] @ ''    '' else [])" by simp
  show "''aaaaaaaaaaaa'' = (if [''aaaaaaaaaaaaaaaaaaaaaaaaaaaaaaaaaaaaaaaaaaaaaaaaaaaaaaaaaa''] \<noteq> [] then lstrip ''aaaaaaaaaaaa''
                 else drop (length ([] :: string)) ''aaaaaaaaaaaa'')"
    by (simp add: lstrip_def not_space_a)
  show "fill_line monospace_canvas ''Courier'' (96 / 5) 672 ''    '' ''aaaaaaaaaaaa'' 0 = (''    aaaaaaaaaaaa'', None)"
    by (rule long_line_second_fill)
qed

lemma long_line_first_round: "wrap_code_loop monospace_canvas ''Courier'' (96 / 5) 672 [] [] long_code_line
   = wrap_code_loop monospace_canvas ''Courier'' (96 / 5) 672 []
       ([] @ [take (length ([] :: string) + find_break_point long_code_line 58) ''aaaaaaaaaaaaaaaaaaaaaaaaaaaaaaaaaaaaaaaaaaaaaaaaaaaaaaaaaa'']) ''aaaaaaaaaaaa''"
proof (rule wrap_code_loop_step)
  show "long_code_line \<noteq> []" by (simp add: long_code_line_def)
  show "[] = (if ([] :: string list) \<noteq> [] then [] @ ''    '' else [])" by simp
  show "long_code_line = (if ([] :: string list) \<noteq> [] then lstrip long_code_line
                          else drop (length ([] :: string)) long_code_line)"
    by simp
  show "fill_line monospace_canvas ''Courier'' (96 / 5) 672 [] long_code_line 0 = (''aaaaaaaaaaaaaaaaaaaaaaaaaaaaaaaaaaaaaaaaaaaaaaaaaaaaaaaaaa'', Some 58)"
    by (rule long_line_first_fill)
  show "lstrip (drop (find_break_point long_code_line 58) long_code_line) = ''aaaaaaaaaaaa''"
    by (simp add: long_line_break_point long_line_rest)
  show "''aaaaaaaaaaaa'' \<noteq> []" by simp
qed

lemma long_code_line_wrapped:
  "wrap_code_line monospace_canvas long_code_line ''Courier'' (96 / 5) 672
     = Some [''aaaaaaaaaaaaaaaaaaaaaaaaaaaaaaaaaaaaaaaaaaaaaaaaaaaaaaaaaa'', ''    aaaaaaaaaaaa'']"
proof -
  have w: "\<not> stringWidth monospace_canvas long_code_line ''Courier'' (96 / 5) \<le> 672"
    by (simp add: monospace_canvas_def long_code_line_def)
  have s: "strip long_code_line \<noteq> []"
    by (simp add: strip_def lstrip_def rstrip_def long_code_line_def not_space_a)
  have lw: "takeWhile (\<lambda>char. char = CHR '' '' \<or> char = CHR 0x09) long_code_line = []"
    by (simp add: long_code_line_def)
  have "wrap_code_loop monospace_canvas ''Courier'' (96 / 5) 672 [] [] long_code_line
          = Some [''aaaaaaaaaaaaaaaaaaaaaaaaaaaaaaaaaaaaaaaaaaaaaaaaaaaaaaaaaa'', ''    aaaaaaaaaaaa'']"
    by (simp add: long_line_first_round long_line_break_point long_line_second_round)
  then show ?thesis using w s by (simp add: wrap_code_line_def lw)
qed

subsection \<open>The height of a code block\<close>

lemma Code_render_height:
  "Code_render canvas_obj code language background_color x y th = Returns (h, ops) \<Longrightarrow>
   h = real (length (Code_lines canvas_obj code language))
         * (theme_get (theme_font_size th) 24 * 0.8 + 2) + 2 * 10 + 10"
  by (auto simp: Code_render_def Let_def split: option.splits if_splits)

text \<open>A canvas that reads the two colours of a code block and knows the font Courier.\<close>

lemma Code_render_returns:
  assumes "\<forall>line\<in>set (Code_lines canvas_obj code language).
             wrap_progress canvas_obj ''Courier'' (theme_get (theme_font_size th) 24 * 0.8)
               (get_available_width - 20) line"
    and "HexColor_error canvas_obj background_color = None"
    and "HexColor_error canvas_obj (theme_get (theme_font_color th) ''#000000'') = None"
    and "font_registered canvas_obj ''Courier''"
  shows "\<exists>h ops. Code_render canvas_obj code language background_color x y th = Returns (h, ops)"
proof -
  from draw_code_lines_returns[OF assms(1)]
  obtain ops where
    "draw_code_lines canvas_obj language x (y - 10) ''Courier''
       (theme_get (theme_font_size th) 24 * 0.8) (get_available_width - 20)
       (theme_get (theme_font_size th) 24 * 0.8 + 2) th (Code_lines canvas_obj code language)
     = Some ops"
    by blast
  then show ?thesis using assms(2-4) by (simp add: Code_render_def Let_def)
qed

text \<open>
  For every \<^verbatim>\<open>Code\<close> element whose code has a character that is not white space,
  on every canvas and for every theme: the estimate is the number of lines left after
  trimming times \<open>fontSize * 0.8 + 2\<close>, plus \<open>2 * 10 + 10\<close>; every height that
  \<^verbatim>\<open>Code.render\<close> returns is this estimate, whether lines were wrapped into
  continuation segments or not; and \<^verbatim>\<open>Code.render\<close> does return when the wrapping
  of every line progresses, on a canvas that reads the two colours of the block and
  knows the font Courier.
\<close>

lemma code_block_height:
  assumes "\<exists>c\<in>set code. \<not> isspace c"
  shows "estimate_element_height (Code code language background_color) th
           = real (length (Code_lines canvas_obj code language))
               * (theme_get (theme_font_size th) 24 * 0.8 + 2) + 2 * 10 + 10 \<and>
         (\<forall>h ops. render canvas_obj (Code code language background_color) x y th = Returns (h, ops)
            \<longrightarrow> h = estimate_element_height (Code code language background_color) th) \<and>
         ((\<forall>line\<in>set (Code_lines canvas_obj code language).
              wrap_progress canvas_obj ''Courier'' (theme_get (theme_font_size th) 24 * 0.8)
                (get_available_width - 20) line) \<and>
          HexColor_error canvas_obj background_color = None \<and>
          HexColor_error canvas_obj (theme_get (theme_font_color th) ''#000000'') = None \<and>
          font_registered canvas_obj ''Courier''
            \<longrightarrow> (\<exists>h ops. render canvas_obj (Code code language background_color) x y th
                            = Returns (h, ops)))"
proof -
  have count: "length (estimate_code_lines code) = length (Code_lines canvas_obj code language)"
    using Code_lines_count[OF assms, of canvas_obj language] by simp
  have est: "estimate_element_height (Code code language background_color) th
           = real (length (Code_lines canvas_obj code language))
               * (theme_get (theme_font_size th) 24 * 0.8 + 2) + 2 * 10 + 10"
    unfolding estimate_element_height.simps Let_def count by (rule refl)
  have same: "h = estimate_element_height (Code code language background_color) th"
    if "render canvas_obj (Code code language background_color) x y th = Returns (h, ops)"
    for h ops
  proof -
    from that have "Code_render canvas_obj code language background_color x y th = Returns (h, ops)"
      by simp
    from Code_render_height[OF this] show ?thesis by (simp only: est)
  qed
  have returns: "\<exists>h ops. render canvas_obj (Code code language background_color) x y th
                            = Returns (h, ops)"
    if "\<forall>line\<in>set (Code_lines canvas_obj code language).
              wrap_progress canvas_obj ''Courier'' (theme_get (theme_font_size th) 24 * 0.8)
                (get_available_width - 20) line"
      and "HexColor_error canvas_obj background_color = None"
      and "HexColor_error canvas_obj (theme_get (theme_font_color th) ''#000000'') = None"
      and "font_registered canvas_obj ''Courier''"
    using Code_render_returns[OF that] by simp
  from est same returns show ?thesis by blast
qed

lemma long_code_lines: "Code_lines monospace_canvas long_code_line (Some ''python'') = [long_code_line]"
  by (simp add: Code_lines_def apply_basic_highlighting_def blank_iff not_space_a
      long_code_line_def Let_def)

text \<open>
  The long example line is wrapped into two segments, and the block of this one line
  is as high as one line: 51.2.
\<close>

lemma code_block_height_example:
  "\<not> isspace (CHR ''a'') \<and> CHR ''a'' \<in> set long_code_line \<and>
   Code_lines monospace_canvas long_code_line (Some ''python'') = [long_code_line] \<and>
   \<not> stringWidth monospace_canvas long_code_line ''Courier'' (96 / 5) \<le> 672 \<and>
   wrap_code_line monospace_canvas long_code_line ''Courier'' (96 / 5) 672
     = Some [''aaaaaaaaaaaaaaaaaaaaaaaaaaaaaaaaaaaaaaaaaaaaaaaaaaaaaaaaaa'', ''    aaaaaaaaaaaa''] \<and>
   wrap_progress monospace_canvas ''Courier'' (theme_get (theme_font_size default_theme) 24 * 0.8)
     (get_available_width - 20) long_code_line \<and>
   estimate_element_height (Code long_code_line (Some ''python'') ''#F5F5F5'') default_theme
     = 256 / 5 \<and>
   (\<exists>ops. render monospace_canvas (Code long_code_line (Some ''python'') ''#F5F5F5'') 50 300
            default_theme = Returns (256 / 5, ops))"
proof -
  have a: "CHR ''a'' \<in> set long_code_line" by (simp add: long_code_line_def)
  then have ex: "\<exists>c\<in>set long_code_line. \<not> isspace c" using not_space_a by blast
  have prog: "wrap_progress monospace_canvas ''Courier''
      (theme_get (theme_font_size default_theme) 24 * 0.8) (get_available_width - 20) long_code_line"
    by (simp add: wrap_progress_def monospace_canvas_def default_theme_def theme_get_def
        get_available_width_def SLIDE_16_9_def DEFAULT_MARGIN_LEFT_def DEFAULT_MARGIN_RIGHT_def
        long_code_line_def)
  note inst = code_block_height [OF ex, of "Some ''python''" "''#F5F5F5''" default_theme
      monospace_canvas 50 300]
  have est: "estimate_element_height (Code long_code_line (Some ''python'') ''#F5F5F5'') default_theme
     = 256 / 5"
    using inst by (simp add: long_code_lines default_theme_def theme_get_def)
  have "HexColor_error monospace_canvas (theme_get (theme_font_color default_theme) ''#000000'')
          = None"
    by (simp add: default_theme_def theme_get_def monospace_canvas_reads)
  with inst prog obtain h ops where
    r: "render monospace_canvas (Code long_code_line (Some ''python'') ''#F5F5F5'') 50 300
          default_theme = Returns (h, ops)"
    by (auto simp: long_code_lines monospace_canvas_reads)
  with inst have "h = estimate_element_height (Code long_code_line (Some ''python'') ''#F5F5F5'')
                       default_theme"
    by blast
  with r est have "\<exists>ops. render monospace_canvas (Code long_code_line (Some ''python'') ''#F5F5F5'')
      50 300 default_theme = Returns (256 / 5, ops)"
    by auto
  moreover have "\<not> stringWidth monospace_canvas long_code_line ''Courier'' (96 / 5) \<le> 672"
    by (simp add: monospace_canvas_def long_code_line_def)
  ultimately show ?thesis
    using a est prog not_space_a long_code_lines long_code_line_wrapped by blast
qed

subsection \<open>A code line on which \<^verbatim>\<open>_wrap_code_line\<close> never returns\<close>

lemma find_break_point_0: "find_break_point rc 0 = 0"
  by (simp add: find_break_point_def)

text \<open>
  A round of the loop of \<^verbatim>\<open>_wrap_code_line\<close> in which not even the first character
  fits behind the continuation indent breaks at index 0 and leaves the rest of the line
  as it was: from such a state the loop returns nothing.
\<close>

lemma wrap_code_loop_stuck:
  assumes "wrap_code_loop canvas_obj font_name font_size max_width lw wl remaining = Some r"
  shows "\<not> (wl \<noteq> [] \<and> remaining \<noteq> [] \<and> lstrip remaining = remaining \<and>
            \<not> stringWidth canvas_obj (lw @ ''    '' @ [hd remaining]) font_name font_size
                \<le> max_width)"
proof (rule wrap_code_loop.raw_induct
    [where P = "\<lambda>canvas_obj font_name font_size max_width lw wl remaining r.
       \<not> (wl \<noteq> [] \<and> remaining \<noteq> [] \<and> lstrip remaining = remaining \<and>
            \<not> stringWidth canvas_obj (lw @ ''    '' @ [hd remaining]) font_name font_size
                \<le> max_width)", OF _ assms], goal_cases)
  case (1 loop canvas_obj font_name font_size max_width lw wl remaining r)
  show ?case
  proof
    assume stuck: "wl \<noteq> [] \<and> remaining \<noteq> [] \<and> lstrip remaining = remaining \<and>
            \<not> stringWidth canvas_obj (lw @ ''    '' @ [hd remaining]) font_name font_size
                \<le> max_width"
    then obtain c cs where cons: "remaining = c # cs" by (cases remaining) auto
    with stuck have fill:
      "fill_line canvas_obj font_name font_size max_width (lw @ ''    '') remaining 0
         = (lw @ ''    '', Some 0)"
      by simp
    from 1(2) stuck fill
    have "loop canvas_obj font_name font_size max_width lw (wl @ [lw @ ''    '']) remaining = Some r"
      by (simp add: Let_def find_break_point_0)
    from 1(1)[OF this] stuck show False by simp
  qed
qed

lemma deep_code_line_never_wrapped:
  "wrap_code_line monospace_canvas deep_code_line ''Courier'' (96 / 5) 672 = None"
proof -
  have x: "\<not> isspace (CHR ''x'')" by (simp add: isspace_def)
  have w: "\<not> stringWidth monospace_canvas deep_code_line ''Courier'' (96 / 5) \<le> 672"
    by (simp add: monospace_canvas_def deep_code_line_def)
  have s: "strip deep_code_line \<noteq> []"
    using x blank_iff[of deep_code_line] by (auto simp: blank_def deep_code_line_def)
  have lw: "takeWhile (\<lambda>char. char = CHR '' '' \<or> char = CHR 0x09) deep_code_line = ''                                                          ''"
    by (simp add: deep_code_line_def)
  have first: "wrap_code_loop monospace_canvas ''Courier'' (96 / 5) 672 ''                                                          '' [] deep_code_line
      = wrap_code_loop monospace_canvas ''Courier'' (96 / 5) 672 ''                                                          ''
          ([] @ [take (length ''                                                          '' + find_break_point ''x'' 0) ''                                                          '']) ''x''"
  proof (rule wrap_code_loop_step)
    show "deep_code_line \<noteq> []" by (simp add: deep_code_line_def)
    show "''                                                          '' = (if ([] :: string list) \<noteq> [] then ''                                                          '' @ ''    '' else ''                                                          '')"
      by simp
    show "''x'' = (if ([] :: string list) \<noteq> [] then lstrip deep_code_line
                   else drop (length ''                                                          '') deep_code_line)"
      by (simp add: deep_code_line_def)
    show "fill_line monospace_canvas ''Courier'' (96 / 5) 672 ''                                                          '' ''x'' 0 = (''                                                          '', Some 0)"
      by (simp add: monospace_canvas_def)
    show "lstrip (drop (find_break_point ''x'' 0) ''x'') = ''x''"
      by (simp add: find_break_point_0 lstrip_def x)
    show "''x'' \<noteq> []" by simp
  qed
  have "wrap_code_loop monospace_canvas ''Courier'' (96 / 5) 672 ''                                                          ''
          ([] @ [take (length ''                                                          '' + find_break_point ''x'' 0) ''                                                          '']) ''x'' = None"
  proof (cases "wrap_code_loop monospace_canvas ''Courier'' (96 / 5) 672 ''                                                          ''
          ([] @ [take (length ''                                                          '' + find_break_point ''x'' 0) ''                                                          '']) ''x''")
    case None
    then show ?thesis .
  next
    case (Some r)
    from wrap_code_loop_stuck[OF this] show ?thesis
      by (simp add: lstrip_def x monospace_canvas_def)
  qed
  with first have "wrap_code_loop monospace_canvas ''Courier'' (96 / 5) 672 ''                                                          '' [] deep_code_line
      = None"
    by simp
  then show ?thesis using w s by (simp add: wrap_code_line_def lw)
qed

text \<open>
  C10. The claim is that for every \<^verbatim>\<open>Code\<close> element whose code has a character
  that is not white space the estimator's height is the value that \<^verbatim>\<open>Code.render\<close>
  returns. For the code of one line, an \<^verbatim>\<open>x\<close> indented by 58 spaces, at the default
  theme and with the widths of Courier, the estimate is 51.2 and \<^verbatim>\<open>Code.render\<close>
  returns no value: the loop of \<^verbatim>\<open>_wrap_code_line\<close> never ends.
\<close>

theorem code_render_never_returns:
  "CHR ''x'' \<in> set deep_code_line \<and> \<not> isspace (CHR ''x'') \<and>
   estimate_element_height (Code deep_code_line None ''#F5F5F5'') default_theme = 256 / 5 \<and>
   render monospace_canvas (Code deep_code_line None ''#F5F5F5'') 50 300 default_theme = Diverges"
proof -
  have x: "\<not> isspace (CHR ''x'')" by (simp add: isspace_def)
  have member: "CHR ''x'' \<in> set deep_code_line" by (simp add: deep_code_line_def)
  have nonblank: "\<not> blank deep_code_line"
    using x by (auto simp: blank_iff deep_code_line_def)
  have "split_on (CHR 0x0A) deep_code_line = [deep_code_line]"
    by (simp add: deep_code_line_def)
  with nonblank have lines: "Code_lines monospace_canvas deep_code_line None = [deep_code_line]"
    by (simp add: Code_lines_def Let_def)
  have "\<exists>c\<in>set deep_code_line. \<not> isspace c" using member x by blast
  then have "length (estimate_code_lines deep_code_line) = 1"
    using Code_lines_count[of deep_code_line monospace_canvas None] lines by simp
  then have est: "estimate_element_height (Code deep_code_line None ''#F5F5F5'') default_theme
      = 256 / 5"
    by (simp add: Let_def default_theme_def theme_get_def)
  have w: "\<not> stringWidth monospace_canvas deep_code_line ''Courier'' (96 / 5) \<le> 672"
    by (simp add: monospace_canvas_def deep_code_line_def)
  have "draw_code_lines monospace_canvas language x y ''Courier'' (96 / 5) 672 line_height th
          [deep_code_line] = None" for language x y line_height th
    using w deep_code_line_never_wrapped by simp
  then have "render monospace_canvas (Code deep_code_line None ''#F5F5F5'') 50 300 default_theme
      = Diverges"
    by (simp add: Code_render_def lines Let_def default_theme_def theme_get_def
        get_available_width_def SLIDE_16_9_def DEFAULT_MARGIN_LEFT_def DEFAULT_MARGIN_RIGHT_def
        monospace_canvas_reads)
  with member x est show ?thesis by blast
qed

end
